theory Spec2Isabelle
  imports Complex_Main "HOL-Library.Multiset"
begin

section \<open>Python values, errors and string helpers\<close>

text \<open>
  The exceptions the modelled code can raise.  Every \<open>raise\<close> of the source (or of a
  library call the source makes) is a branch returning \<open>Inl\<close>.
\<close>

datatype error = ValueError | KeyError | IndexError | AttributeError | TypeError | EmptyDataError
  | ParserError

subsection \<open>\<open>str(int)\<close> and \<open>int(str)\<close>\<close>

definition digit_char :: "nat \<Rightarrow> char" where
  "digit_char d = char_of (48 + d)"

fun digits :: "nat \<Rightarrow> string" where
  "digits n = (if n < 10 then [digit_char n] else digits (n div 10) @ [digit_char (n mod 10)])"

declare digits.simps [simp del]

text \<open>Python's \<open>str(n)\<close> (and the \<open>{n}\<close> of an f-string) for an integer \<open>n\<close>.\<close>

definition py_str_int :: "int \<Rightarrow> string" where
  "py_str_int n = (if n < 0 then CHR ''-'' # digits (nat (- n)) else digits (nat n))"

definition is_digit :: "char \<Rightarrow> bool" where
  "is_digit c = ((48::nat) \<le> of_char c \<and> (of_char c :: nat) \<le> 57)"

definition digit_val :: "char \<Rightarrow> nat" where
  "digit_val c = (of_char c :: nat) - 48"

definition parse_nat :: "string \<Rightarrow> nat option" where
  "parse_nat s = (if s \<noteq> [] \<and> list_all is_digit s
                  then Some (foldl (\<lambda>acc c. 10 * acc + digit_val c) 0 s) else None)"

text \<open>
  Python's \<open>int(s)\<close> on a string of an optional sign and ASCII decimal digits; any other
  string raises \<open>ValueError\<close>.  (Python also accepts surrounding blanks and \<open>_\<close> between
  digits; neither can occur where the modelled code calls \<open>int\<close>, on a piece of a string
  split at \<open>_\<close> that stems from a column name.)
\<close>

definition py_int :: "string \<Rightarrow> error + int" where
  "py_int s = (case s of
       [] \<Rightarrow> Inl ValueError
     | c # r \<Rightarrow>
        if c = CHR ''-'' then (case parse_nat r of None \<Rightarrow> Inl ValueError | Some n \<Rightarrow> Inr (- int n))
        else if c = CHR ''+'' then (case parse_nat r of None \<Rightarrow> Inl ValueError | Some n \<Rightarrow> Inr (int n))
        else (case parse_nat s of None \<Rightarrow> Inl ValueError | Some n \<Rightarrow> Inr (int n)))"

subsection \<open>\<open>sep.join\<close>, \<open>str.split\<close> and the substring test\<close>

fun join :: "string \<Rightarrow> string list \<Rightarrow> string" where
  "join sep [] = []"
| "join sep [x] = x"
| "join sep (x # y # ys) = x @ sep @ join sep (y # ys)"

text \<open>\<open>s.split(c)\<close> for a one-character separator: never empty, \<open>''''.split(c) = ['''']\<close>.\<close>

fun split_on :: "char \<Rightarrow> string \<Rightarrow> string list" where
  "split_on c [] = [[]]"
| "split_on c (x # xs) =
     (if x = c then [] # split_on c xs
      else (case split_on c xs of [] \<Rightarrow> [[x]] | w # ws \<Rightarrow> (x # w) # ws))"

text \<open>\<open>p in s\<close> for strings: \<open>p\<close> occurs in \<open>s\<close> as a contiguous substring.\<close>

fun is_prefix :: "string \<Rightarrow> string \<Rightarrow> bool" where
  "is_prefix [] s = True"
| "is_prefix (p # ps) [] = False"
| "is_prefix (p # ps) (c # cs) = (p = c \<and> is_prefix ps cs)"

fun contains :: "string \<Rightarrow> string \<Rightarrow> bool" where
  "contains p [] = (p = [])"
| "contains p (c # cs) = (is_prefix p (c # cs) \<or> contains p cs)"

section \<open>The index query engine (\<open>index.py\<close>)\<close>

subsection \<open>The data frame\<close>

text \<open>
  A cell of the frame \<open>pandas\<close> holds: a string, an integer, or a missing value (\<open>NaN\<close>).
\<close>

datatype cell = CStr string | CInt int | CNaN

record frame =
  columns :: "string list"
  rows :: "cell list list"

text \<open>A row shorter than the header is padded with missing values by \<open>read_csv\<close>.\<close>

definition cell_at :: "cell list \<Rightarrow> nat \<Rightarrow> cell" where
  "cell_at r i = (if i < length r then r ! i else CNaN)"

fun index_of :: "'a \<Rightarrow> 'a list \<Rightarrow> nat option" where
  "index_of x [] = None"
| "index_of x (y # ys) = (if x = y then Some 0 else map_option Suc (index_of x ys))"

text \<open>\<open>df[name]\<close>: the column of that name, \<open>KeyError\<close> when there is none.\<close>

definition column :: "frame \<Rightarrow> string \<Rightarrow> error + cell list" where
  "column df name = (case index_of name (columns df) of
       None \<Rightarrow> Inl KeyError
     | Some i \<Rightarrow> Inr (map (\<lambda>r. cell_at r i) (rows df)))"

text \<open>\<open>df.ImageID\<close>: attribute access, \<open>AttributeError\<close> when there is no such column.\<close>

definition ImageID_column :: "frame \<Rightarrow> error + cell list" where
  "ImageID_column df = (case column df ''ImageID'' of
       Inl e \<Rightarrow> Inl AttributeError
     | Inr cs \<Rightarrow> Inr cs)"

text \<open>\<open>df[selector]\<close>: the rows whose entry in the boolean series is true.\<close>

definition select_rows :: "frame \<Rightarrow> bool list \<Rightarrow> frame" where
  "select_rows df sel = df\<lparr>rows := map snd (filter fst (zip sel (rows df)))\<rparr>"

text \<open>
  Elementwise comparison of a column with an integer: a missing value compares false,
  a string raises \<open>TypeError\<close>.
\<close>

fun cell_cmp :: "(int \<Rightarrow> int \<Rightarrow> bool) \<Rightarrow> cell \<Rightarrow> int \<Rightarrow> error + bool" where
  "cell_cmp rel (CInt v) n = Inr (rel v n)"
| "cell_cmp rel CNaN n = Inr False"
| "cell_cmp rel (CStr s) n = Inl TypeError"

fun sequence :: "(error + 'a) list \<Rightarrow> error + 'a list" where
  "sequence [] = Inr []"
| "sequence (x # xs) =
     (case x of Inl e \<Rightarrow> Inl e
      | Inr v \<Rightarrow> (case sequence xs of Inl e \<Rightarrow> Inl e | Inr vs \<Rightarrow> Inr (v # vs)))"

definition column_cmp :: "(int \<Rightarrow> int \<Rightarrow> bool) \<Rightarrow> frame \<Rightarrow> string \<Rightarrow> int \<Rightarrow> error + bool list" where
  "column_cmp rel df name n = (case column df name of
       Inl e \<Rightarrow> Inl e
     | Inr cs \<Rightarrow> sequence (map (\<lambda>c. cell_cmp rel c n) cs))"

subsection \<open>\<open>pandas.read_csv\<close>\<close>

text \<open>
  The strings \<open>read_csv\<close> reads as a missing value by default.
\<close>

definition na_values :: "string list" where
  "na_values = ['''', ''#N/A'', ''#N/A N/A'', ''#NA'', ''-1.#IND'', ''-1.#QNAN'', ''-NaN'',
     ''-nan'', ''1.#IND'', ''1.#QNAN'', ''<NA>'', ''N/A'', ''NA'', ''NULL'', ''NaN'', ''None'',
     ''n/a'', ''nan'', ''null'']"

definition parse_cell :: "string \<Rightarrow> cell" where
  "parse_cell s = (if s \<in> set na_values then CNaN
                   else (case py_int s of Inr n \<Rightarrow> CInt n | Inl e \<Rightarrow> CStr s))"

text \<open>
  \<open>read_csv\<close> renames a repeated column name: the second \<open>X\<close> becomes \<open>X.1\<close>, the
  third \<open>X.2\<close>, skipping names already taken.  \<open>counts\<close> is the dictionary of how often
  each name was seen (newest binding first, absent meaning \<open>0\<close>).
\<close>

definition count_of :: "(string \<times> nat) list \<Rightarrow> string \<Rightarrow> nat" where
  "count_of counts col = (case map_of counts col of None \<Rightarrow> 0 | Some n \<Rightarrow> n)"

function dedup_loop :: "(string \<times> nat) list \<Rightarrow> string \<Rightarrow> (string \<times> nat) list \<times> string" where
  "dedup_loop counts col =
     (let cur_count = count_of counts col in
      if cur_count > 0
      then dedup_loop ((col, cur_count + 1) # counts) (col @ ''.'' @ py_str_int (int cur_count))
      else (counts, col))"
  by pat_completeness auto
termination
proof (relation "measure (\<lambda>(counts, col). card {k \<in> fst ` set counts. length col \<le> length k})",
    goal_cases)
  case 1
  show ?case by simp
next
  case (2 counts col cur)
  let ?col' = "col @ ''.'' @ py_str_int (int cur)"
  from 2 have pos: "count_of counts col > 0" by simp
  then have mem: "col \<in> fst ` set counts"
    by (auto simp: count_of_def split: option.splits dest: map_of_SomeD intro: rev_image_eqI)
  have sub: "{k \<in> fst ` set ((col, cur + 1) # counts). length ?col' \<le> length k}
        \<subseteq> {k \<in> fst ` set counts. length col \<le> length k}"
    using mem by auto
  have "col \<in> {k \<in> fst ` set counts. length col \<le> length k}"
    using mem by simp
  moreover have "col \<notin> {k \<in> fst ` set ((col, cur + 1) # counts). length ?col' \<le> length k}"
    by simp
  ultimately have "{k \<in> fst ` set ((col, cur + 1) # counts). length ?col' \<le> length k}
        \<subset> {k \<in> fst ` set counts. length col \<le> length k}"
    using sub by blast
  moreover have "finite {k \<in> fst ` set counts. length col \<le> length k}" by simp
  ultimately show ?case
    by (simp add: psubset_card_mono)
qed

declare dedup_loop.simps [simp del]

fun dedup_names_from :: "(string \<times> nat) list \<Rightarrow> string list \<Rightarrow> string list" where
  "dedup_names_from counts [] = []"
| "dedup_names_from counts (col # names) =
     (case dedup_loop counts col of
        (counts', col') \<Rightarrow> col' # dedup_names_from ((col', count_of counts' col' + 1) # counts') names)"

definition dedup_names :: "string list \<Rightarrow> string list" where
  "dedup_names names = dedup_names_from [] names"

text \<open>
  The tokenizer of \<open>read_csv\<close> with its default settings (separator \<open>,\<close>, quote
  character \<open>"\<close>, a doubled quote standing for a quote inside a quoted field, blank
  lines skipped), as the state machine it is.  The text is taken as ASCII.  Going back to
  the start of a line that began with blanks is modelled for lines that follow a line feed
  or start the text, not for one that follows a lone carriage return.
\<close>

datatype tok_state = START_RECORD | START_FIELD | IN_FIELD | IN_QUOTED_FIELD
  | QUOTE_IN_QUOTED_FIELD | WHITESPACE_LINE | EAT_CRNL | EAT_CRNL_NOP

record tokenizer =
  tk_state :: tok_state
  tk_field :: string
  tk_fields :: "string list"
  tk_records :: "string list list"
  tk_pending :: string

definition newline :: char where "newline = CHR 0x0A"
definition carriage :: char where "carriage = CHR 0x0D"
definition tab :: char where "tab = CHR 0x09"
definition quote :: char where "quote = CHR 0x22"

definition is_blank :: "char \<Rightarrow> bool" where
  "is_blank c \<longleftrightarrow> c = CHR '' '' \<or> c = tab"

definition push_char :: "char \<Rightarrow> tokenizer \<Rightarrow> tokenizer" where
  "push_char c t = t\<lparr>tk_field := tk_field t @ [c]\<rparr>"

definition end_field :: "tokenizer \<Rightarrow> tokenizer" where
  "end_field t = t\<lparr>tk_fields := tk_fields t @ [tk_field t], tk_field := []\<rparr>"

definition end_line :: "tokenizer \<Rightarrow> tokenizer" where
  "end_line t = t\<lparr>tk_records := tk_records t @ [tk_fields t], tk_fields := [],
                  tk_field := [], tk_state := START_RECORD\<rparr>"

definition in_field :: "char \<Rightarrow> tokenizer \<Rightarrow> tokenizer" where
  "in_field c t =
     (if c = newline then end_line (end_field t)
      else if c = carriage then (end_field t)\<lparr>tk_state := EAT_CRNL\<rparr>
      else if c = CHR '','' then (end_field t)\<lparr>tk_state := START_FIELD\<rparr>
      else (push_char c t)\<lparr>tk_state := IN_FIELD\<rparr>)"

definition start_field :: "char \<Rightarrow> tokenizer \<Rightarrow> tokenizer" where
  "start_field c t =
     (if c = newline then end_line (end_field t)
      else if c = carriage then (end_field t)\<lparr>tk_state := EAT_CRNL\<rparr>
      else if c = quote then t\<lparr>tk_state := IN_QUOTED_FIELD\<rparr>
      else if c = CHR '','' then (end_field t)\<lparr>tk_state := START_FIELD\<rparr>
      else (push_char c t)\<lparr>tk_state := IN_FIELD\<rparr>)"

text \<open>
  At the start of a record an empty line is skipped, and a blank starts a line that is
  skipped if nothing but blanks follows.
\<close>

definition start_record :: "char \<Rightarrow> tokenizer \<Rightarrow> tokenizer" where
  "start_record c t =
     (if c = newline then t\<lparr>tk_state := START_RECORD\<rparr>
      else if c = carriage then t\<lparr>tk_state := EAT_CRNL_NOP\<rparr>
      else if is_blank c then t\<lparr>tk_state := WHITESPACE_LINE, tk_pending := [c]\<rparr>
      else start_field c t)"

text \<open>
  A character other than a blank in a line that began with blanks: the tokenizer goes back
  to the start of the line and reads it as fields, the blanks first.
\<close>

definition whitespace_line :: "char \<Rightarrow> tokenizer \<Rightarrow> tokenizer" where
  "whitespace_line c t =
     (if c = newline then t\<lparr>tk_state := START_RECORD, tk_pending := []\<rparr>
      else if c = carriage then t\<lparr>tk_state := EAT_CRNL_NOP, tk_pending := []\<rparr>
      else if is_blank c then t\<lparr>tk_pending := tk_pending t @ [c]\<rparr>
      else in_field c (t\<lparr>tk_field := tk_pending t, tk_pending := []\<rparr>))"

definition in_quoted_field :: "char \<Rightarrow> tokenizer \<Rightarrow> tokenizer" where
  "in_quoted_field c t =
     (if c = quote then t\<lparr>tk_state := QUOTE_IN_QUOTED_FIELD\<rparr> else push_char c t)"

definition quote_in_quoted_field :: "char \<Rightarrow> tokenizer \<Rightarrow> tokenizer" where
  "quote_in_quoted_field c t =
     (if c = quote then (push_char c t)\<lparr>tk_state := IN_QUOTED_FIELD\<rparr>
      else if c = CHR '','' then (end_field t)\<lparr>tk_state := START_FIELD\<rparr>
      else if c = newline then end_line (end_field t)
      else if c = carriage then (end_field t)\<lparr>tk_state := EAT_CRNL\<rparr>
      else (push_char c t)\<lparr>tk_state := IN_FIELD\<rparr>)"

text \<open>After a carriage return: a line feed ends the line with it, anything else by itself.\<close>

definition eat_crnl :: "char \<Rightarrow> tokenizer \<Rightarrow> tokenizer" where
  "eat_crnl c t =
     (if c = newline then end_line t
      else if c = CHR '','' then (end_field (end_line t))\<lparr>tk_state := START_FIELD\<rparr>
      else start_record c (end_line t))"

definition eat_crnl_nop :: "char \<Rightarrow> tokenizer \<Rightarrow> tokenizer" where
  "eat_crnl_nop c t =
     (if c = newline \<or> c = CHR '','' then t\<lparr>tk_state := START_RECORD\<rparr>
      else start_record c (t\<lparr>tk_state := START_RECORD\<rparr>))"

definition tok_step :: "tokenizer \<Rightarrow> char \<Rightarrow> tokenizer" where
  "tok_step t c = (case tk_state t of
       START_RECORD \<Rightarrow> start_record c t
     | START_FIELD \<Rightarrow> start_field c t
     | IN_FIELD \<Rightarrow> in_field c t
     | IN_QUOTED_FIELD \<Rightarrow> in_quoted_field c t
     | QUOTE_IN_QUOTED_FIELD \<Rightarrow> quote_in_quoted_field c t
     | WHITESPACE_LINE \<Rightarrow> whitespace_line c t
     | EAT_CRNL \<Rightarrow> eat_crnl c t
     | EAT_CRNL_NOP \<Rightarrow> eat_crnl_nop c t)"

text \<open>
  The end of the text: inside a quoted field it is an error, elsewhere the record being
  read, if any, is finished.
\<close>

definition tok_eof :: "tokenizer \<Rightarrow> error + string list list" where
  "tok_eof t = (case tk_state t of
       START_RECORD \<Rightarrow> Inr (tk_records t)
     | WHITESPACE_LINE \<Rightarrow> Inr (tk_records t)
     | EAT_CRNL_NOP \<Rightarrow> Inr (tk_records t)
     | IN_QUOTED_FIELD \<Rightarrow> Inl ParserError
     | EAT_CRNL \<Rightarrow> Inr (tk_records (end_line t))
     | _ \<Rightarrow> Inr (tk_records (end_line (end_field t))))"

definition tokenize :: "string \<Rightarrow> error + string list list" where
  "tokenize text =
     tok_eof (foldl tok_step
       \<lparr>tk_state = START_RECORD, tk_field = [], tk_fields = [], tk_records = [],
        tk_pending = []\<rparr> text)"

text \<open>
  The records after the header all get as many fields as the first of them, or as the
  header if it has more: a shorter record is filled up with empty fields, and a longer one,
  from the second record after the header on, is an error.  When the records have more
  fields than the header has names, the leading fields are the index of the frame, not
  columns of it.
\<close>

definition pad :: "nat \<Rightarrow> string list \<Rightarrow> string list" where
  "pad n r = r @ replicate (n - length r) []"

definition frame_of_records :: "string list list \<Rightarrow> error + frame" where
  "frame_of_records recs = (case recs of
       [] \<Rightarrow> Inl EmptyDataError
     | header # data \<Rightarrow>
        (let h = length header;
             n = (case data of [] \<Rightarrow> h | r # rs \<Rightarrow> max h (length r))
         in if list_ex (\<lambda>r. n < length r) (tl data) then Inl ParserError
            else Inr \<lparr>columns = dedup_names header,
                      rows = map (\<lambda>r. map parse_cell (drop (n - h) (pad n r))) data\<rparr>))"

text \<open>
  \<open>read_csv\<close> on a file given by its lines, each ended by a line feed as the index
  builders write them.  A file without a record raises.  Every cell is parsed on its own
  (\<open>pandas\<close> decides per column whether the cells are numbers; no cell is ever the empty
  string either way).
\<close>

definition read_csv :: "string list \<Rightarrow> error + frame" where
  "read_csv lines = (case tokenize (concat (map (\<lambda>l. l @ [newline]) lines)) of
       Inl e \<Rightarrow> Inl e
     | Inr recs \<Rightarrow> frame_of_records recs)"

text \<open>
  A plain character is a printable ASCII character other than the quote character; a plain
  line is made of plain characters.  The rows the index builders write are plain lines,
  unless the name of an image file is not plain.
\<close>

definition plain_char :: "char \<Rightarrow> bool" where
  "plain_char c \<longleftrightarrow> (32::nat) \<le> of_char c \<and> (of_char c :: nat) < 127 \<and> c \<noteq> quote"

subsection \<open>\<open>COCOIndex\<close>\<close>

text \<open>The state of a \<open>COCOIndex\<close> is its frame \<open>_index\<close>; \<open>keep\<close> and \<open>remove\<close> return the new one.\<close>

definition true_selector :: "frame \<Rightarrow> error + bool list" where
  "true_selector df = (case ImageID_column df of
       Inl e \<Rightarrow> Inl e
     | Inr ids \<Rightarrow> Inr (map (\<lambda>c. c \<noteq> CStr '''') ids))"

definition false_selector :: "frame \<Rightarrow> error + bool list" where
  "false_selector df = (case ImageID_column df of
       Inl e \<Rightarrow> Inl e
     | Inr ids \<Rightarrow> Inr (map (\<lambda>c. c = CStr '''') ids))"

definition get_images :: "frame \<Rightarrow> error + cell set" where
  "get_images df = (case ImageID_column df of
       Inl e \<Rightarrow> Inl e
     | Inr ids \<Rightarrow> Inr (set ids))"

definition NumInstances_col :: "int \<Rightarrow> string" where
  "NumInstances_col class_id = ''NumInstances_'' @ py_str_int class_id"

fun classes_loop :: "frame \<Rightarrow> bool list \<Rightarrow> int list \<Rightarrow> error + bool list" where
  "classes_loop df selector [] = Inr selector"
| "classes_loop df selector (class_id # classes) =
     (case column_cmp (\<lambda>v n. v > n) df (NumInstances_col class_id) 0 of
        Inl e \<Rightarrow> Inl e
      | Inr m \<Rightarrow> classes_loop df (map2 (\<or>) selector m) classes)"

definition get_images_with_classes :: "frame \<Rightarrow> int list \<Rightarrow> error + cell set" where
  "get_images_with_classes df classes = (case false_selector df of
       Inl e \<Rightarrow> Inl e
     | Inr selector \<Rightarrow> (case classes_loop df selector classes of
          Inl e \<Rightarrow> Inl e
        | Inr selector' \<Rightarrow> get_images (select_rows df selector')))"

definition and_bound :: "(int \<Rightarrow> int \<Rightarrow> bool) \<Rightarrow> frame \<Rightarrow> int \<Rightarrow> int option \<Rightarrow> bool list
    \<Rightarrow> error + bool list" where
  "and_bound rel df class_id bound selector = (case bound of
       None \<Rightarrow> Inr selector
     | Some b \<Rightarrow> (case column_cmp rel df (NumInstances_col class_id) b of
          Inl e \<Rightarrow> Inl e
        | Inr m \<Rightarrow> Inr (map2 (\<and>) selector m)))"

fun bounded_loop :: "frame \<Rightarrow> int option \<Rightarrow> int option \<Rightarrow> bool list \<Rightarrow> int list \<Rightarrow> error + bool list" where
  "bounded_loop df lower upper selector [] = Inr selector"
| "bounded_loop df lower upper selector (class_id # classes) =
     (case and_bound (\<lambda>v n. v \<ge> n) df class_id lower selector of
        Inl e \<Rightarrow> Inl e
      | Inr s1 \<Rightarrow> (case and_bound (\<lambda>v n. v < n) df class_id upper s1 of
           Inl e \<Rightarrow> Inl e
         | Inr s2 \<Rightarrow> bounded_loop df lower upper s2 classes))"

definition get_images_with_bounded_num_instances ::
    "frame \<Rightarrow> int list \<Rightarrow> int option \<Rightarrow> int option \<Rightarrow> error + cell set" where
  "get_images_with_bounded_num_instances df classes lower upper = (case true_selector df of
       Inl e \<Rightarrow> Inl e
     | Inr selector \<Rightarrow> (case bounded_loop df lower upper selector classes of
          Inl e \<Rightarrow> Inl e
        | Inr selector' \<Rightarrow> get_images (select_rows df selector')))"

definition keep :: "frame \<Rightarrow> cell set \<Rightarrow> error + frame" where
  "keep df image_ids = (case ImageID_column df of
       Inl e \<Rightarrow> Inl e
     | Inr ids \<Rightarrow> Inr (select_rows df (map (\<lambda>c. c \<in> image_ids) ids)))"

definition remove :: "frame \<Rightarrow> cell set \<Rightarrow> error + frame" where
  "remove df image_ids = (case ImageID_column df of
       Inl e \<Rightarrow> Inl e
     | Inr ids \<Rightarrow> Inr (select_rows df (map (\<lambda>c. c \<notin> image_ids) ids)))"

text \<open>
  The frames a \<open>COCOIndex\<close> can hold: the one \<open>load\<close> read, and what \<open>keep\<close> and
  \<open>remove\<close> make of such a frame.
\<close>

inductive loaded :: "frame \<Rightarrow> bool" where
  load: "read_csv lines = Inr df \<Longrightarrow> loaded df"
| kept: "loaded df \<Longrightarrow> keep df image_ids = Inr df' \<Longrightarrow> loaded df'"
| removed: "loaded df \<Longrightarrow> remove df image_ids = Inr df' \<Longrightarrow> loaded df'"

section \<open>The row statistics engine (\<open>create_index.py\<close>)\<close>

subsection \<open>Annotations and \<open>numpy\<close> reductions\<close>

text \<open>
  An annotation as \<open>create_index_row\<close> reads it: \<open>a['category_id']\<close>, \<open>a['area']\<close> and
  \<open>a['bbox']\<close>, the list \<open>[x, y, width, height]\<close>.  The type \<open>'a\<close> is that of the
  numbers as the annotation file gives them, Python integers or floating-point numbers,
  finite ones.
\<close>

record 'a annotation =
  category_id :: int
  area :: 'a
  bbox :: "'a \<times> 'a \<times> 'a \<times> 'a"

definition bind :: "error + 'a \<Rightarrow> ('a \<Rightarrow> error + 'b) \<Rightarrow> error + 'b" where
  "bind m f = (case m of Inl e \<Rightarrow> Inl e | Inr v \<Rightarrow> f v)"

text \<open>
  The reductions of \<open>numpy\<close> are parameters of the model: \<open>a.sum()\<close>, \<open>a.min()\<close>,
  \<open>a.max()\<close>, \<open>a.mean()\<close> and \<open>a.std()\<close> of the array made of a list of numbers, and
  \<open>b[:, k].mean()\<close> and \<open>b[:, k].std()\<close> of column \<open>k\<close> of the array made of a list of
  boxes.  Nothing is assumed of what they compute: \<open>sum\<close> wraps around on an array of
  64-bit integers and rounds on an array of floating-point numbers, \<open>mean\<close> and \<open>std\<close>
  round.  Each is a function of its array only.  What they return are finite numbers,
  taken as the real numbers they denote.  Python's \<open>max\<close> and \<open>min\<close> compare two of them
  as these numbers (a 64-bit integer beyond \<open>2^53\<close> compared with a floating-point
  number is rounded first, which is left out).
\<close>

record 'a numpy =
  np_sum :: "'a list \<Rightarrow> real"
  np_min :: "'a list \<Rightarrow> real"
  np_max :: "'a list \<Rightarrow> real"
  np_mean :: "'a list \<Rightarrow> real"
  np_std :: "'a list \<Rightarrow> real"
  np_col_mean :: "nat \<Rightarrow> ('a \<times> 'a \<times> 'a \<times> 'a) list \<Rightarrow> real"
  np_col_std :: "nat \<Rightarrow> ('a \<times> 'a \<times> 'a \<times> 'a) list \<Rightarrow> real"

text \<open>\<open>a.min()\<close> and \<open>a.max()\<close> raise \<open>ValueError\<close> on an empty array.\<close>

definition array_min :: "'a numpy \<Rightarrow> 'a list \<Rightarrow> error + real" where
  "array_min N xs = (if xs = [] then Inl ValueError else Inr (np_min N xs))"

definition array_max :: "'a numpy \<Rightarrow> 'a list \<Rightarrow> error + real" where
  "array_max N xs = (if xs = [] then Inl ValueError else Inr (np_max N xs))"

subsection \<open>Python's \<open>max\<close> and \<open>min\<close>\<close>

text \<open>
  \<open>max(it)\<close> keeps the first item and replaces it only by a strictly greater one, so of
  several maximal items the first is returned; \<open>min\<close> likewise with strictly smaller.
  An empty iterable raises \<open>ValueError\<close>.
\<close>

definition py_max :: "'a::linorder list \<Rightarrow> error + 'a" where
  "py_max vs = (case vs of
       [] \<Rightarrow> Inl ValueError
     | v # rest \<Rightarrow> Inr (foldl (\<lambda>maxval val. if val > maxval then val else maxval) v rest))"

definition py_min :: "'a::linorder list \<Rightarrow> error + 'a" where
  "py_min vs = (case vs of
       [] \<Rightarrow> Inl ValueError
     | v # rest \<Rightarrow> Inr (foldl (\<lambda>minval val. if val < minval then val else minval) v rest))"

text \<open>\<open>max(f(x) for x in xs)\<close>: the generator's items are computed, any of them may raise.\<close>

definition py_max_of :: "('a \<Rightarrow> error + 'k::linorder) \<Rightarrow> 'a list \<Rightarrow> error + 'k" where
  "py_max_of f xs = bind (sequence (map f xs)) py_max"

definition py_min_of :: "('a \<Rightarrow> error + 'k::linorder) \<Rightarrow> 'a list \<Rightarrow> error + 'k" where
  "py_min_of f xs = bind (sequence (map f xs)) py_min"

text \<open>\<open>max(xs, key=f)\<close> and \<open>min(xs, key=f)\<close>: the item is returned, the keys are compared.\<close>

definition py_max_key :: "('a \<Rightarrow> error + 'k::linorder) \<Rightarrow> 'a list \<Rightarrow> error + 'a" where
  "py_max_key f xs = bind (sequence (map f xs)) (\<lambda>ks. case zip xs ks of
       [] \<Rightarrow> Inl ValueError
     | p # rest \<Rightarrow> Inr (fst (foldl (\<lambda>(maxitem, maxval) (item, val).
                             if val > maxval then (item, val) else (maxitem, maxval)) p rest)))"

definition py_min_key :: "('a \<Rightarrow> error + 'k::linorder) \<Rightarrow> 'a list \<Rightarrow> error + 'a" where
  "py_min_key f xs = bind (sequence (map f xs)) (\<lambda>ks. case zip xs ks of
       [] \<Rightarrow> Inl ValueError
     | p # rest \<Rightarrow> Inr (fst (foldl (\<lambda>(minitem, minval) (item, val).
                             if val < minval then (item, val) else (minitem, minval)) p rest)))"

subsection \<open>\<open>os.path.splitext\<close>\<close>

text \<open>
  \<open>os.path.splitext(p)[0]\<close>: \<open>p\<close> without its extension, the part from the last dot of
  the last path component on; leading dots of that component do not start an extension.
\<close>

definition splitext_root :: "string \<Rightarrow> string" where
  "splitext_root p =
     (let base = rev (takeWhile (\<lambda>c. c \<noteq> CHR ''/'') (rev p));
          dir = take (length p - length base) p;
          dots = takeWhile (\<lambda>c. c = CHR ''.'') base;
          rest = drop (length dots) base
      in if CHR ''.'' \<in> set rest
         then dir @ dots @ rev (tl (dropWhile (\<lambda>c. c \<noteq> CHR ''.'') (rev rest)))
         else p)"

subsection \<open>The row\<close>

text \<open>
  The ten values \<open>create_index_row\<close> appends for one category, named as their columns
  \<open>NumInstances_<category id>\<close>, \<open>TotalArea_<category id>\<close>, ...
\<close>

record category_block =
  NumInstances_cat :: int
  TotalArea_cat :: real
  MinArea_cat :: real
  MeanArea_cat :: real
  MaxArea_cat :: real
  StdevArea_cat :: real
  MeanX_cat :: real
  MeanY_cat :: real
  StdevX_cat :: real
  StdevY_cat :: real

text \<open>
  The list \<open>row\<close> of \<open>create_index_row\<close>: its first 36 entries by the names of their
  columns, then the blocks of the categories, in the order of \<open>category_ids\<close>.
\<close>

record index_row =
  ImageID :: string
  NumInstances :: int
  NumCategories :: int
  TotalArea :: real
  MinArea :: real
  MeanArea :: real
  MaxArea :: real
  StdevArea :: real
  MeanX :: real
  MeanY :: real
  StdevX :: real
  StdevY :: real
  Highest_NumInstances :: int
  Highest_TotalArea :: real
  Highest_MinArea :: real
  Highest_MeanArea :: real
  Highest_MaxArea :: real
  Highest_StdevArea :: real
  Lowest_NumInstances :: int
  Lowest_TotalArea :: real
  Lowest_MinArea :: real
  Lowest_MeanArea :: real
  Lowest_MaxArea :: real
  Lowest_StdevArea :: real
  CategoryOf_Highest_NumInstances :: int
  CategoryOf_Highest_TotalArea :: int
  CategoryOf_Highest_MinArea :: int
  CategoryOf_Highest_MeanArea :: int
  CategoryOf_Highest_MaxArea :: int
  CategoryOf_Highest_StdevArea :: int
  CategoryOf_Lowest_NumInstances :: int
  CategoryOf_Lowest_TotalArea :: int
  CategoryOf_Lowest_MinArea :: int
  CategoryOf_Lowest_MeanArea :: int
  CategoryOf_Lowest_MaxArea :: int
  CategoryOf_Lowest_StdevArea :: int
  per_category :: "category_block list"

subsection \<open>\<open>create_index_row\<close>\<close>

text \<open>
  The \<open>defaultdict(list)\<close> filled by the grouping loop: each annotation is appended to
  the list of its category, a category never seen has the empty list.
\<close>

definition annotations_by_cid :: "'a annotation list \<Rightarrow> int \<Rightarrow> 'a annotation list" where
  "annotations_by_cid annotations =
     foldl (\<lambda>d a. d(category_id a := d (category_id a) @ [a])) (\<lambda>cid. []) annotations"

definition areas_by_cid :: "'a annotation list \<Rightarrow> int \<Rightarrow> 'a list" where
  "areas_by_cid annotations cid = map area (annotations_by_cid annotations cid)"

definition bboxes_by_cid :: "'a annotation list \<Rightarrow> int \<Rightarrow> ('a \<times> 'a \<times> 'a \<times> 'a) list" where
  "bboxes_by_cid annotations cid = map bbox (annotations_by_cid annotations cid)"

definition nonempty_category_ids :: "int list \<Rightarrow> 'a annotation list \<Rightarrow> int list" where
  "nonempty_category_ids category_ids annotations =
     filter (\<lambda>cid. length (annotations_by_cid annotations cid) > 0) category_ids"

text \<open>The six statistics of one category that the cross-category extrema range over.\<close>

definition cat_len :: "'a annotation list \<Rightarrow> int \<Rightarrow> error + int" where
  "cat_len annotations cid = Inr (int (length (annotations_by_cid annotations cid)))"

definition cat_sum :: "'a numpy \<Rightarrow> 'a annotation list \<Rightarrow> int \<Rightarrow> error + real" where
  "cat_sum N annotations cid = Inr (np_sum N (areas_by_cid annotations cid))"

definition cat_min :: "'a numpy \<Rightarrow> 'a annotation list \<Rightarrow> int \<Rightarrow> error + real" where
  "cat_min N annotations cid = array_min N (areas_by_cid annotations cid)"

definition cat_mean :: "'a numpy \<Rightarrow> 'a annotation list \<Rightarrow> int \<Rightarrow> error + real" where
  "cat_mean N annotations cid = Inr (np_mean N (areas_by_cid annotations cid))"

definition cat_max :: "'a numpy \<Rightarrow> 'a annotation list \<Rightarrow> int \<Rightarrow> error + real" where
  "cat_max N annotations cid = array_max N (areas_by_cid annotations cid)"

definition cat_std :: "'a numpy \<Rightarrow> 'a annotation list \<Rightarrow> int \<Rightarrow> error + real" where
  "cat_std N annotations cid = Inr (np_std N (areas_by_cid annotations cid))"

text \<open>
  One pass of the loop over \<open>category_ids\<close>: the ten values appended for \<open>cid\<close>, each
  reduction guarded by \<open>len(category_annotations) > 0\<close>, with the literal \<open>0\<close> otherwise.
\<close>

definition category_row :: "'a numpy \<Rightarrow> 'a annotation list \<Rightarrow> int \<Rightarrow> error + category_block" where
  "category_row N annotations cid =
     (let category_annotations = annotations_by_cid annotations cid;
          category_areas = areas_by_cid annotations cid;
          category_bboxes = bboxes_by_cid annotations cid;
          present = (length category_annotations > 0)
      in bind (if present then array_min N category_areas else Inr 0) (\<lambda>min_area.
         bind (if present then array_max N category_areas else Inr 0) (\<lambda>max_area.
         Inr \<lparr>NumInstances_cat = int (length category_annotations),
              TotalArea_cat = (if present then np_sum N category_areas else 0),
              MinArea_cat = min_area,
              MeanArea_cat = (if present then np_mean N category_areas else 0),
              MaxArea_cat = max_area,
              StdevArea_cat = (if present then np_std N category_areas else 0),
              MeanX_cat = (if present then np_col_mean N 0 category_bboxes else 0),
              MeanY_cat = (if present then np_col_mean N 1 category_bboxes else 0),
              StdevX_cat = (if present then np_col_std N 0 category_bboxes else 0),
              StdevY_cat = (if present then np_col_std N 1 category_bboxes else 0)\<rparr>)))"

text \<open>
  The row of one image, before \<open>sep.join(map(str, row))\<close> turns it into text.  The
  entries are computed in the order of the list \<open>row\<close>; the first call that raises
  ends the function with its error.
\<close>

definition create_index_row ::
    "'a numpy \<Rightarrow> int list \<Rightarrow> string \<Rightarrow> 'a annotation list \<Rightarrow> error + index_row" where
  "create_index_row N category_ids filename annotations =
     (let areas = map area annotations;
          bboxes = map bbox annotations;
          nonempty = nonempty_category_ids category_ids annotations
      in bind (array_min N areas) (\<lambda>min_area.
         bind (array_max N areas) (\<lambda>max_area.
         bind (py_max_of (cat_len annotations) nonempty) (\<lambda>highest_num.
         bind (py_max_of (cat_sum N annotations) nonempty) (\<lambda>highest_total.
         bind (py_max_of (cat_min N annotations) nonempty) (\<lambda>highest_min.
         bind (py_max_of (cat_mean N annotations) nonempty) (\<lambda>highest_mean.
         bind (py_max_of (cat_max N annotations) nonempty) (\<lambda>highest_max.
         bind (py_max_of (cat_std N annotations) nonempty) (\<lambda>highest_std.
         bind (py_min_of (cat_len annotations) nonempty) (\<lambda>lowest_num.
         bind (py_min_of (cat_sum N annotations) nonempty) (\<lambda>lowest_total.
         bind (py_min_of (cat_min N annotations) nonempty) (\<lambda>lowest_min.
         bind (py_min_of (cat_mean N annotations) nonempty) (\<lambda>lowest_mean.
         bind (py_min_of (cat_max N annotations) nonempty) (\<lambda>lowest_max.
         bind (py_min_of (cat_std N annotations) nonempty) (\<lambda>lowest_std.
         bind (py_max_key (cat_len annotations) nonempty) (\<lambda>c_highest_num.
         bind (py_max_key (cat_sum N annotations) nonempty) (\<lambda>c_highest_total.
         bind (py_max_key (cat_min N annotations) nonempty) (\<lambda>c_highest_min.
         bind (py_max_key (cat_mean N annotations) nonempty) (\<lambda>c_highest_mean.
         bind (py_max_key (cat_max N annotations) nonempty) (\<lambda>c_highest_max.
         bind (py_max_key (cat_std N annotations) nonempty) (\<lambda>c_highest_std.
         bind (py_min_key (cat_len annotations) nonempty) (\<lambda>c_lowest_num.
         bind (py_min_key (cat_sum N annotations) nonempty) (\<lambda>c_lowest_total.
         bind (py_min_key (cat_min N annotations) nonempty) (\<lambda>c_lowest_min.
         bind (py_min_key (cat_mean N annotations) nonempty) (\<lambda>c_lowest_mean.
         bind (py_min_key (cat_max N annotations) nonempty) (\<lambda>c_lowest_max.
         bind (py_min_key (cat_std N annotations) nonempty) (\<lambda>c_lowest_std.
         bind (sequence (map (category_row N annotations) category_ids)) (\<lambda>blocks.
         Inr \<lparr>ImageID = splitext_root filename,
              NumInstances = int (length annotations),
              NumCategories = int (length nonempty),
              TotalArea = np_sum N areas,
              MinArea = min_area,
              MeanArea = np_mean N areas,
              MaxArea = max_area,
              StdevArea = np_std N areas,
              MeanX = np_col_mean N 0 bboxes,
              MeanY = np_col_mean N 1 bboxes,
              StdevX = np_col_std N 0 bboxes,
              StdevY = np_col_std N 1 bboxes,
              Highest_NumInstances = highest_num,
              Highest_TotalArea = highest_total,
              Highest_MinArea = highest_min,
              Highest_MeanArea = highest_mean,
              Highest_MaxArea = highest_max,
              Highest_StdevArea = highest_std,
              Lowest_NumInstances = lowest_num,
              Lowest_TotalArea = lowest_total,
              Lowest_MinArea = lowest_min,
              Lowest_MeanArea = lowest_mean,
              Lowest_MaxArea = lowest_max,
              Lowest_StdevArea = lowest_std,
              CategoryOf_Highest_NumInstances = c_highest_num,
              CategoryOf_Highest_TotalArea = c_highest_total,
              CategoryOf_Highest_MinArea = c_highest_min,
              CategoryOf_Highest_MeanArea = c_highest_mean,
              CategoryOf_Highest_MaxArea = c_highest_max,
              CategoryOf_Highest_StdevArea = c_highest_std,
              CategoryOf_Lowest_NumInstances = c_lowest_num,
              CategoryOf_Lowest_TotalArea = c_lowest_total,
              CategoryOf_Lowest_MinArea = c_lowest_min,
              CategoryOf_Lowest_MeanArea = c_lowest_mean,
              CategoryOf_Lowest_MaxArea = c_lowest_max,
              CategoryOf_Lowest_StdevArea = c_lowest_std,
              per_category = blocks\<rparr>))))))))))))))))))))))))))))"

text \<open>
  The block of category \<open>cid\<close> in a row built for \<open>category_ids\<close>: the blocks stand in
  the order of \<open>category_ids\<close>, as the columns \<open>..._<cid>\<close> of the header do.
\<close>

definition block_of :: "int list \<Rightarrow> index_row \<Rightarrow> int \<Rightarrow> category_block option" where
  "block_of category_ids row cid = map_of (zip category_ids (per_category row)) cid"

subsection \<open>The row as text\<close>

text \<open>
  An entry of the list \<open>row\<close> and its \<open>str\<close>.  How Python prints a floating-point
  number is a parameter, \<open>str_real\<close>.
\<close>

datatype pyval = VStr string | VInt int | VReal real

fun py_str :: "(real \<Rightarrow> string) \<Rightarrow> pyval \<Rightarrow> string" where
  "py_str str_real (VStr s) = s"
| "py_str str_real (VInt n) = py_str_int n"
| "py_str str_real (VReal x) = str_real x"

definition block_values :: "category_block \<Rightarrow> pyval list" where
  "block_values b =
     [VInt (NumInstances_cat b), VReal (TotalArea_cat b), VReal (MinArea_cat b),
      VReal (MeanArea_cat b), VReal (MaxArea_cat b), VReal (StdevArea_cat b),
      VReal (MeanX_cat b), VReal (MeanY_cat b), VReal (StdevX_cat b), VReal (StdevY_cat b)]"

definition row_values :: "index_row \<Rightarrow> pyval list" where
  "row_values r =
     [VStr (ImageID r), VInt (NumInstances r), VInt (NumCategories r),
      VReal (TotalArea r), VReal (MinArea r), VReal (MeanArea r), VReal (MaxArea r),
      VReal (StdevArea r), VReal (MeanX r), VReal (MeanY r), VReal (StdevX r), VReal (StdevY r),
      VInt (Highest_NumInstances r), VReal (Highest_TotalArea r), VReal (Highest_MinArea r),
      VReal (Highest_MeanArea r), VReal (Highest_MaxArea r), VReal (Highest_StdevArea r),
      VInt (Lowest_NumInstances r), VReal (Lowest_TotalArea r), VReal (Lowest_MinArea r),
      VReal (Lowest_MeanArea r), VReal (Lowest_MaxArea r), VReal (Lowest_StdevArea r),
      VInt (CategoryOf_Highest_NumInstances r), VInt (CategoryOf_Highest_TotalArea r),
      VInt (CategoryOf_Highest_MinArea r), VInt (CategoryOf_Highest_MeanArea r),
      VInt (CategoryOf_Highest_MaxArea r), VInt (CategoryOf_Highest_StdevArea r),
      VInt (CategoryOf_Lowest_NumInstances r), VInt (CategoryOf_Lowest_TotalArea r),
      VInt (CategoryOf_Lowest_MinArea r), VInt (CategoryOf_Lowest_MeanArea r),
      VInt (CategoryOf_Lowest_MaxArea r), VInt (CategoryOf_Lowest_StdevArea r)]
     @ concat (map block_values (per_category r))"

text \<open>What \<open>create_index_row\<close> returns: \<open>sep.join(map(str, row))\<close>.\<close>

definition create_index_row_str ::
    "(real \<Rightarrow> string) \<Rightarrow> 'a numpy \<Rightarrow> int list \<Rightarrow> string \<Rightarrow> 'a annotation list \<Rightarrow> string
      \<Rightarrow> error + string" where
  "create_index_row_str str_real N category_ids filename annotations sep =
     bind (create_index_row N category_ids filename annotations)
       (\<lambda>row. Inr (join sep (map (py_str str_real) (row_values row))))"

subsection \<open>\<open>create_header_row\<close>\<close>

definition fixed_columns :: "string list" where
  "fixed_columns =
     [''ImageID'', ''NumInstances'', ''NumCategories'', ''TotalArea'', ''MinArea'', ''MeanArea'',
      ''MaxArea'', ''StdevArea'', ''MeanX'', ''MeanY'', ''StdevX'', ''StdevY'',
      ''Highest_NumInstances'', ''Highest_TotalArea'', ''Highest_MinArea'', ''Highest_MeanArea'',
      ''Highest_MaxArea'', ''Highest_StdevArea'',
      ''Lowest_NumInstances'', ''Lowest_TotalArea'', ''Lowest_MinArea'', ''Lowest_MeanArea'',
      ''Lowest_MaxArea'', ''Lowest_StdevArea'',
      ''CategoryOf_Highest_NumInstances'', ''CategoryOf_Highest_TotalArea'',
      ''CategoryOf_Highest_MinArea'', ''CategoryOf_Highest_MeanArea'',
      ''CategoryOf_Highest_MaxArea'', ''CategoryOf_Highest_StdevArea'',
      ''CategoryOf_Lowest_NumInstances'', ''CategoryOf_Lowest_TotalArea'',
      ''CategoryOf_Lowest_MinArea'', ''CategoryOf_Lowest_MeanArea'',
      ''CategoryOf_Lowest_MaxArea'', ''CategoryOf_Lowest_StdevArea'']"

definition category_prefixes :: "string list" where
  "category_prefixes =
     [''NumInstances_'', ''TotalArea_'', ''MinArea_'', ''MeanArea_'', ''MaxArea_'', ''StdevArea_'',
      ''MeanX_'', ''MeanY_'', ''StdevX_'', ''StdevY_'']"

definition category_columns :: "int \<Rightarrow> string list" where
  "category_columns cid = map (\<lambda>p. p @ py_str_int cid) category_prefixes"

definition header_columns :: "int list \<Rightarrow> string list" where
  "header_columns category_ids = fixed_columns @ concat (map category_columns category_ids)"

definition create_header_row :: "int list \<Rightarrow> string \<Rightarrow> string" where
  "create_header_row category_ids sep = join sep (header_columns category_ids)"

subsection \<open>The index builders\<close>

record category =
  cat_id :: int
  cat_name :: string

text \<open>
  The file is the list of the lines written so far, each \<open>fp.write(s); fp.write('\n')\<close>
  adding one.  A builder returns the error that ended it, if any, and the file as it
  then is.  \<open>annotations_by_filename\<close> is the dictionary in the order of its \<open>items()\<close>.
\<close>

fun write_rows :: "(real \<Rightarrow> string) \<Rightarrow> 'a numpy \<Rightarrow> int list \<Rightarrow> string \<Rightarrow> string list
    \<Rightarrow> (string \<times> 'a annotation list) list \<Rightarrow> error option \<times> string list" where
  "write_rows str_real N category_ids sep fp [] = (None, fp)"
| "write_rows str_real N category_ids sep fp ((filename, annotations) # items) =
     (case create_index_row_str str_real N category_ids filename annotations sep of
        Inl e \<Rightarrow> (Some e, fp)
      | Inr row \<Rightarrow> write_rows str_real N category_ids sep (fp @ [row]) items)"

definition create_index_sequentially :: "(real \<Rightarrow> string) \<Rightarrow> 'a numpy \<Rightarrow> category list
    \<Rightarrow> (string \<times> 'a annotation list) list \<Rightarrow> string \<Rightarrow> error option \<times> string list" where
  "create_index_sequentially str_real N categories annotations_by_filename sep =
     (let category_ids = sort (map cat_id categories)
      in write_rows str_real N category_ids sep [create_header_row category_ids sep]
           annotations_by_filename)"

definition wrapped_create_index_row ::
    "(real \<Rightarrow> string) \<Rightarrow> 'a numpy \<Rightarrow> int list \<times> string \<times> 'a annotation list \<times> string
      \<Rightarrow> error + string" where
  "wrapped_create_index_row str_real N args =
     (case args of (category_ids, filename, annotations, sep) \<Rightarrow>
        create_index_row_str str_real N category_ids filename annotations sep)"

text \<open>
  \<open>pool.imap(f, jobs)\<close>: the workers finish the jobs in some order, \<open>completion\<close>, each
  result stored under the index of its job; the iterator hands the results out in the
  order of the jobs.  A result that never arrives is \<open>None\<close>.
\<close>

definition pool_imap :: "('j \<Rightarrow> 'r) \<Rightarrow> 'j list \<Rightarrow> nat list \<Rightarrow> 'r option list" where
  "pool_imap f jobs completion =
     (let results = foldl (\<lambda>tbl i. if i < length jobs then tbl(i \<mapsto> f (jobs ! i)) else tbl)
                      Map.empty completion
      in map results [0..<length jobs])"

text \<open>
  The loop over the iterator: a row that arrives is written, an error that arrives is
  raised, and waiting for a result that never arrives does not return (\<open>None\<close>).
\<close>

fun write_results :: "string list \<Rightarrow> (error + string) option list
    \<Rightarrow> (error option \<times> string list) option" where
  "write_results fp [] = Some (None, fp)"
| "write_results fp (None # rs) = None"
| "write_results fp (Some (Inl e) # rs) = Some (Some e, fp)"
| "write_results fp (Some (Inr row) # rs) = write_results (fp @ [row]) rs"

definition create_index_multiprocessing :: "(real \<Rightarrow> string) \<Rightarrow> 'a numpy \<Rightarrow> category list
    \<Rightarrow> (string \<times> 'a annotation list) list \<Rightarrow> string \<Rightarrow> nat list
    \<Rightarrow> (error option \<times> string list) option" where
  "create_index_multiprocessing str_real N categories annotations_by_filename sep completion =
     (let category_ids = sort (map cat_id categories);
          fp = [create_header_row category_ids sep];
          jobs = map (\<lambda>(filename, annotations). (category_ids, filename, annotations, sep))
                   annotations_by_filename
      in write_results fp (pool_imap (wrapped_create_index_row str_real N) jobs completion))"

subsection \<open>\<open>COCOIndex.get_classes\<close>\<close>

text \<open>
  \<open>set(int(c.split('_')[1]) for c in columns if 'NumInstances_' in c)\<close>: a column name
  without a second piece raises \<open>IndexError\<close>, which the names selected cannot, as each
  holds a \<open>_\<close>; \<open>int\<close> raises \<open>ValueError\<close>.
\<close>

definition class_of_column :: "string \<Rightarrow> error + int" where
  "class_of_column c = (case split_on CHR ''_'' c of
       x # y # zs \<Rightarrow> py_int y
     | _ \<Rightarrow> Inl IndexError)"

definition get_classes :: "frame \<Rightarrow> error + int set" where
  "get_classes df =
     bind (sequence (map class_of_column (filter (contains ''NumInstances_'') (columns df))))
       (\<lambda>ids. Inr (set ids))"

text \<open>\<open>COCOIndex(path).get_classes()\<close>: the file is loaded, then the classes are read off.\<close>

definition classes_of_loaded :: "string list \<Rightarrow> error + int set" where
  "classes_of_loaded lines = bind (read_csv lines) get_classes"

section \<open>The specification's vocabulary\<close>

text \<open>
  The notions the specification states its properties with, written after its words: the
  instances \<open>A\<^sub>c\<close> of a category in an image, the six statistics of a category, the
  nonempty categories of an image, and the first category of a list that attains the
  highest (lowest) value of a statistic.
\<close>

definition instances_of :: "'a annotation list \<Rightarrow> int \<Rightarrow> 'a annotation list" where
  "instances_of A c = filter (\<lambda>a. category_id a = c) A"

text \<open>
  The statistics of a category are the count of its instances, and the reductions of
  \<open>numpy\<close> on the array of the areas of its instances, in the order of the image.
\<close>

definition count_stat :: "'a annotation list \<Rightarrow> int \<Rightarrow> int" where
  "count_stat A c = int (length (instances_of A c))"

definition total_area_stat :: "'a numpy \<Rightarrow> 'a annotation list \<Rightarrow> int \<Rightarrow> real" where
  "total_area_stat N A c = np_sum N (map area (instances_of A c))"

definition min_area_stat :: "'a numpy \<Rightarrow> 'a annotation list \<Rightarrow> int \<Rightarrow> real" where
  "min_area_stat N A c = np_min N (map area (instances_of A c))"

definition mean_area_stat :: "'a numpy \<Rightarrow> 'a annotation list \<Rightarrow> int \<Rightarrow> real" where
  "mean_area_stat N A c = np_mean N (map area (instances_of A c))"

definition max_area_stat :: "'a numpy \<Rightarrow> 'a annotation list \<Rightarrow> int \<Rightarrow> real" where
  "max_area_stat N A c = np_max N (map area (instances_of A c))"

definition stdev_area_stat :: "'a numpy \<Rightarrow> 'a annotation list \<Rightarrow> int \<Rightarrow> real" where
  "stdev_area_stat N A c = np_std N (map area (instances_of A c))"

definition nonempty_categories :: "int list \<Rightarrow> 'a annotation list \<Rightarrow> int list" where
  "nonempty_categories C A = filter (\<lambda>c. instances_of A c \<noteq> []) C"

definition first_highest :: "('a \<Rightarrow> 'k::linorder) \<Rightarrow> 'a list \<Rightarrow> 'a option" where
  "first_highest stat cs = find (\<lambda>c. stat c = Max (stat ` set cs)) cs"

definition first_lowest :: "('a \<Rightarrow> 'k::linorder) \<Rightarrow> 'a list \<Rightarrow> 'a option" where
  "first_lowest stat cs = find (\<lambda>c. stat c = Min (stat ` set cs)) cs"

text \<open>The block of a category without instances: every field \<open>0\<close>.\<close>

definition zero_block :: category_block where
  "zero_block = \<lparr>NumInstances_cat = 0, TotalArea_cat = 0, MinArea_cat = 0, MeanArea_cat = 0,
     MaxArea_cat = 0, StdevArea_cat = 0, MeanX_cat = 0, MeanY_cat = 0, StdevX_cat = 0,
     StdevY_cat = 0\<rparr>"

text \<open>
  The block of a category as the specification describes it: instance count, total,
  minimum, mean, maximum and standard deviation of the areas, mean and standard deviation
  of the \<open>x\<close> and of the \<open>y\<close> coordinates of the boxes, all over \<open>A\<^sub>c\<close> only; every field
  \<open>0\<close> when \<open>A\<^sub>c\<close> is empty.
\<close>

definition block_spec :: "'a numpy \<Rightarrow> 'a annotation list \<Rightarrow> int \<Rightarrow> category_block" where
  "block_spec N A c =
     (let G = instances_of A c in
      if G = [] then zero_block
      else \<lparr>NumInstances_cat = int (length G),
            TotalArea_cat = np_sum N (map area G),
            MinArea_cat = np_min N (map area G),
            MeanArea_cat = np_mean N (map area G),
            MaxArea_cat = np_max N (map area G),
            StdevArea_cat = np_std N (map area G),
            MeanX_cat = np_col_mean N 0 (map bbox G),
            MeanY_cat = np_col_mean N 1 (map bbox G),
            StdevX_cat = np_col_std N 0 (map bbox G),
            StdevY_cat = np_col_std N 1 (map bbox G)\<rparr>)"

text \<open>
  The value of a field of the block of category \<open>c\<close> in a row, \<open>None\<close> when the row has no
  block for \<open>c\<close>.
\<close>

definition block_field ::
    "(category_block \<Rightarrow> 'x) \<Rightarrow> int list \<Rightarrow> index_row \<Rightarrow> int \<Rightarrow> 'x option" where
  "block_field field C row c = map_option field (block_of C row c)"

section \<open>Example data\<close>

text \<open>An image with two instances of category 1, one of category 3 and none of category 2.\<close>

definition example_annotations :: "real annotation list" where
  "example_annotations =
     [\<lparr>category_id = 1, area = 4, bbox = (0, 0, 2, 2)\<rparr>,
      \<lparr>category_id = 3, area = 2, bbox = (1, 2, 1, 2)\<rparr>,
      \<lparr>category_id = 1, area = 6, bbox = (3, 0, 2, 3)\<rparr>]"

text \<open>
  The reductions in exact arithmetic, as they are on numbers small enough for nothing to
  wrap or to be rounded.
\<close>

definition exact_numpy :: "real numpy" where
  "exact_numpy =
     \<lparr>np_sum = sum_list,
      np_min = (\<lambda>xs. Min (set xs)),
      np_max = (\<lambda>xs. Max (set xs)),
      np_mean = (\<lambda>xs. sum_list xs / real (length xs)),
      np_std = (\<lambda>xs. sqrt ((\<Sum>x\<leftarrow>xs. (x - sum_list xs / real (length xs))\<^sup>2) / real (length xs))),
      np_col_mean = (\<lambda>k bs. sum_list (map (\<lambda>(x, y, w, h). if k = 0 then x else y) bs)
                            / real (length bs)),
      np_col_std = (\<lambda>k bs.
         sqrt ((\<Sum>v\<leftarrow>map (\<lambda>(x, y, w, h). if k = 0 then x else y) bs.
                  (v - sum_list (map (\<lambda>(x, y, w, h). if k = 0 then x else y) bs)
                       / real (length bs))\<^sup>2) / real (length bs)))\<rparr>"

section \<open>Invariants used in the proofs\<close>

text \<open>No cell of the frame is the empty string.\<close>

definition no_empty_cell :: "frame \<Rightarrow> bool" where
  "no_empty_cell df \<longleftrightarrow> (\<forall>r\<in>set (rows df). CStr '''' \<notin> set r)"

text \<open>The characters of a decimal numeral: the digits and the sign.\<close>

definition numeral_char :: "char \<Rightarrow> bool" where
  "numeral_char c \<longleftrightarrow> is_digit c \<or> c = CHR ''-''"

section \<open>Properties of the index query engine\<close>

lemma select_rows_map:
  "map snd (filter fst (zip (map g rs) rs)) = filter g rs"
  by (induction rs) auto

lemma ImageID_column_cases:
  "ImageID_column df = Inr ids \<longleftrightarrow>
     (\<exists>i. index_of ''ImageID'' (columns df) = Some i \<and> ids = map (\<lambda>r. cell_at r i) (rows df))"
  by (auto simp: ImageID_column_def column_def split: option.splits)

lemma ImageID_column_select:
  assumes "ImageID_column df = Inr ids"
  shows "ImageID_column (select_rows df (map P ids)) = Inr (filter P ids)"
proof -
  from assms obtain i where i: "index_of ''ImageID'' (columns df) = Some i"
    and ids: "ids = map (\<lambda>r. cell_at r i) (rows df)"
    by (auto simp: ImageID_column_cases)
  have "rows (select_rows df (map P ids)) = filter (\<lambda>r. P (cell_at r i)) (rows df)"
    unfolding select_rows_def ids by (simp add: select_rows_map comp_def)
  moreover have "columns (select_rows df (map P ids)) = columns df"
    by (simp add: select_rows_def)
  ultimately show ?thesis
    using i by (simp add: ImageID_column_cases ids filter_map comp_def)
qed

lemma parse_cell_not_empty: "parse_cell s \<noteq> CStr ''''"
  by (cases "s = []") (auto simp: parse_cell_def na_values_def split: sum.splits)


lemma no_empty_cell_select: "no_empty_cell df \<Longrightarrow> no_empty_cell (select_rows df sel)"
  by (auto simp: no_empty_cell_def select_rows_def dest!: set_zip_rightD)

lemma frame_of_records_no_empty_cell:
  "frame_of_records recs = Inr df \<Longrightarrow> no_empty_cell df"
  by (auto simp: frame_of_records_def no_empty_cell_def Let_def parse_cell_not_empty [symmetric]
      split: list.splits if_splits)

lemma loaded_no_empty_cell: "loaded df \<Longrightarrow> no_empty_cell df"
proof (induction rule: loaded.induct)
  case (load lines df)
  then obtain recs where "frame_of_records recs = Inr df"
    by (auto simp: read_csv_def split: sum.splits)
  then show ?case
    by (rule frame_of_records_no_empty_cell)
next
  case (kept df image_ids df')
  then show ?case
    by (auto simp: keep_def no_empty_cell_select split: sum.splits)
next
  case (removed df image_ids df')
  then show ?case
    by (auto simp: remove_def no_empty_cell_select split: sum.splits)
qed

lemma loaded_ids_not_empty:
  assumes "loaded df" and "ImageID_column df = Inr ids"
  shows "CStr '''' \<notin> set ids"
proof -
  from assms(2) obtain i where ids: "ids = map (\<lambda>r. cell_at r i) (rows df)"
    by (auto simp: ImageID_column_cases)
  have "cell_at r i \<noteq> CStr ''''" if "r \<in> set (rows df)" for r
    using loaded_no_empty_cell [OF assms(1)] that
    by (auto simp: no_empty_cell_def cell_at_def dest: nth_mem)
  then show ?thesis unfolding ids by fastforce
qed

text \<open>
  Claim C4.  In every frame a \<open>COCOIndex\<close> can hold after loading (and after any
  \<open>keep\<close> and \<open>remove\<close>), \<open>get_images_with_classes\<close> of the empty class list is
  the empty set, and \<open>get_images_with_bounded_num_instances\<close> of the empty class list
  is the set \<open>get_images\<close> returns, whatever the bounds, present or absent.
\<close>

theorem empty_class_list_queries:
  assumes "loaded df" and "get_images df = Inr images"
  shows "get_images_with_classes df [] = Inr {} \<and>
         get_images_with_bounded_num_instances df [] lower upper = Inr images"
proof -
  from assms(2) obtain ids where ids: "ImageID_column df = Inr ids" and im: "images = set ids"
    by (auto simp: get_images_def split: sum.splits)
  have ne: "CStr '''' \<notin> set ids"
    by (rule loaded_ids_not_empty [OF assms(1) ids])
  have "filter (\<lambda>c. c = CStr '''') ids = []"
    using ne by (auto simp: filter_empty_conv)
  then have a: "get_images_with_classes df [] = Inr {}"
    using ImageID_column_select [OF ids, of "\<lambda>c. c = CStr ''''"]
    by (simp add: get_images_with_classes_def false_selector_def ids get_images_def)
  have "filter (\<lambda>c. c \<noteq> CStr '''') ids = ids"
    using ne by (auto simp: filter_id_conv)
  then have b: "get_images_with_bounded_num_instances df [] lower upper = Inr images"
    using ImageID_column_select [OF ids, of "\<lambda>c. c \<noteq> CStr ''''"]
    by (simp add: get_images_with_bounded_num_instances_def true_selector_def ids get_images_def im)
  from a b show ?thesis ..
qed

text \<open>
  \<open>read_csv\<close> at work: a record with more fields than the one before it is an error, and
  so is a quote that is never closed; a line of blanks is skipped; records wider than the
  header give their leading fields to the index.
\<close>

lemma read_csv_too_many_fields: "read_csv [''a,b'', ''1,2'', ''4,5,6''] = Inl ParserError"
  by code_simp

lemma read_csv_unclosed_quote: "read_csv [''a,b'', quote # ''1,2''] = Inl ParserError"
  by code_simp

lemma read_csv_blank_line:
  "read_csv [''a,b'', '' '', ''1,2''] = Inr \<lparr>columns = [''a'', ''b''], rows = [[CInt 1, CInt 2]]\<rparr>"
  by code_simp

lemma read_csv_index_shift:
  "read_csv [''a,b'', ''1,2,3''] = Inr \<lparr>columns = [''a'', ''b''], rows = [[CInt 2, CInt 3]]\<rparr>"
  by code_simp

lemma read_csv_example:
  "read_csv [''ImageID,NumInstances_1,NumInstances_2'', ''Empty,0,0'', ''Has1,1,0'', ''Has12,1,2'']
   = Inr \<lparr>columns = [''ImageID'', ''NumInstances_1'', ''NumInstances_2''],
          rows = [[CStr ''Empty'', CInt 0, CInt 0], [CStr ''Has1'', CInt 1, CInt 0],
                  [CStr ''Has12'', CInt 1, CInt 2]]\<rparr>"
  by code_simp

lemma get_images_example:
  "get_images \<lparr>columns = [''ImageID'', ''NumInstances_1'', ''NumInstances_2''],
          rows = [[CStr ''Empty'', CInt 0, CInt 0], [CStr ''Has1'', CInt 1, CInt 0],
                  [CStr ''Has12'', CInt 1, CInt 2]]\<rparr>
   = Inr {CStr ''Empty'', CStr ''Has1'', CStr ''Has12''}"
  by (simp add: get_images_def ImageID_column_def column_def cell_at_def)

theorem empty_class_list_queries_witness:
  "get_images_with_classes \<lparr>columns = [''ImageID'', ''NumInstances_1'', ''NumInstances_2''],
          rows = [[CStr ''Empty'', CInt 0, CInt 0], [CStr ''Has1'', CInt 1, CInt 0],
                  [CStr ''Has12'', CInt 1, CInt 2]]\<rparr> [] = Inr {} \<and>
   get_images_with_bounded_num_instances \<lparr>columns = [''ImageID'', ''NumInstances_1'', ''NumInstances_2''],
          rows = [[CStr ''Empty'', CInt 0, CInt 0], [CStr ''Has1'', CInt 1, CInt 0],
                  [CStr ''Has12'', CInt 1, CInt 2]]\<rparr> [] (Some 1) (Some 4)
     = Inr {CStr ''Empty'', CStr ''Has1'', CStr ''Has12''}"
  by (rule empty_class_list_queries [OF loaded.load [OF read_csv_example] get_images_example])

text \<open>
  Claim C5.  After \<open>keep(S)\<close>, \<open>get_images\<close> returns the intersection of \<open>S\<close> with
  the set it returned before; after \<open>remove(S)\<close>, the set it returned before minus \<open>S\<close>.
\<close>

theorem keep_remove_get_images:
  assumes "get_images df = Inr images"
  shows "(\<exists>df'. keep df image_ids = Inr df' \<and> get_images df' = Inr (image_ids \<inter> images)) \<and>
         (\<exists>df'. remove df image_ids = Inr df' \<and> get_images df' = Inr (images - image_ids))"
proof -
  from assms obtain ids where ids: "ImageID_column df = Inr ids" and im: "images = set ids"
    by (auto simp: get_images_def split: sum.splits)
  have "get_images (select_rows df (map (\<lambda>c. c \<in> image_ids) ids)) = Inr (image_ids \<inter> images)"
    using ImageID_column_select [OF ids, of "\<lambda>c. c \<in> image_ids"]
    by (auto simp: get_images_def im)
  moreover
  have "get_images (select_rows df (map (\<lambda>c. c \<notin> image_ids) ids)) = Inr (images - image_ids)"
    using ImageID_column_select [OF ids, of "\<lambda>c. c \<notin> image_ids"]
    by (auto simp: get_images_def im)
  ultimately show ?thesis
    by (simp add: keep_def remove_def ids)
qed

theorem keep_remove_get_images_witness:
  "(\<exists>df'. keep \<lparr>columns = [''ImageID'', ''NumInstances_1'', ''NumInstances_2''],
          rows = [[CStr ''Empty'', CInt 0, CInt 0], [CStr ''Has1'', CInt 1, CInt 0],
                  [CStr ''Has12'', CInt 1, CInt 2]]\<rparr> {CStr ''Has1'', CStr ''Other''} = Inr df' \<and>
      get_images df' = Inr {CStr ''Has1''}) \<and>
   (\<exists>df'. remove \<lparr>columns = [''ImageID'', ''NumInstances_1'', ''NumInstances_2''],
          rows = [[CStr ''Empty'', CInt 0, CInt 0], [CStr ''Has1'', CInt 1, CInt 0],
                  [CStr ''Has12'', CInt 1, CInt 2]]\<rparr> {CStr ''Has1'', CStr ''Other''} = Inr df' \<and>
      get_images df' = Inr {CStr ''Empty'', CStr ''Has12''})"
proof -
  have "{CStr ''Has1'', CStr ''Other''} \<inter> {CStr ''Empty'', CStr ''Has1'', CStr ''Has12''}
        = {CStr ''Has1''}" by auto
  moreover have "{CStr ''Empty'', CStr ''Has1'', CStr ''Has12''} - {CStr ''Has1'', CStr ''Other''}
        = {CStr ''Empty'', CStr ''Has12''}" by auto
  ultimately show ?thesis
    using keep_remove_get_images [OF get_images_example, of "{CStr ''Has1'', CStr ''Other''}"]
    by simp
qed

section \<open>Properties of the row statistics engine\<close>

lemma by_cid_foldl:
  "foldl (\<lambda>d a. d(category_id a := d (category_id a) @ [a])) d A c
   = d c @ filter (\<lambda>a. category_id a = c) A"
  by (induction A arbitrary: d) auto

lemma annotations_by_cid_eq: "annotations_by_cid A c = instances_of A c"
  by (simp add: annotations_by_cid_def instances_of_def by_cid_foldl)

lemma nonempty_category_ids_eq: "nonempty_category_ids C A = nonempty_categories C A"
  by (simp add: nonempty_category_ids_def nonempty_categories_def annotations_by_cid_eq)

lemma set_nonempty_categories:
  "set (nonempty_categories C A) = set C \<inter> category_id ` set A"
  by (auto simp: nonempty_categories_def instances_of_def filter_empty_conv)

lemma sequence_Inr:
  "(\<And>x. x \<in> set xs \<Longrightarrow> f x = Inr (g x)) \<Longrightarrow> sequence (map f xs) = Inr (map g xs)"
  by (induction xs) auto

lemma foldl_max: "foldl (\<lambda>m (v::'a::linorder). if v > m then v else m) a xs = Max (insert a (set xs))"
proof (induction xs arbitrary: a)
  case Nil
  then show ?case by simp
next
  case (Cons x xs)
  have "Max (insert (if a < x then x else a) (set xs)) = Max (insert a (insert x (set xs)))"
    by (cases "set xs = {}") (auto simp: max_def)
  with Cons show ?case by simp
qed

lemma foldl_min: "foldl (\<lambda>m (v::'a::linorder). if v < m then v else m) a xs = Min (insert a (set xs))"
proof (induction xs arbitrary: a)
  case Nil
  then show ?case by simp
next
  case (Cons x xs)
  have "Min (insert (if x < a then x else a) (set xs)) = Min (insert a (insert x (set xs)))"
    by (cases "set xs = {}") (auto simp: min_def)
  with Cons show ?case by simp
qed

lemma py_max_eq: "vs \<noteq> [] \<Longrightarrow> py_max vs = Inr (Max (set vs))"
  by (cases vs) (simp_all add: py_max_def foldl_max)

lemma py_min_eq: "vs \<noteq> [] \<Longrightarrow> py_min vs = Inr (Min (set vs))"
  by (cases vs) (simp_all add: py_min_def foldl_min)

lemma py_max_of_eq:
  assumes "\<And>x. x \<in> set xs \<Longrightarrow> f x = Inr (g x)" and "xs \<noteq> []"
  shows "py_max_of f xs = Inr (Max (g ` set xs))"
  using assms by (simp add: py_max_of_def bind_def sequence_Inr py_max_eq)

lemma py_min_of_eq:
  assumes "\<And>x. x \<in> set xs \<Longrightarrow> f x = Inr (g x)" and "xs \<noteq> []"
  shows "py_min_of f xs = Inr (Min (g ` set xs))"
  using assms by (simp add: py_min_of_def bind_def sequence_Inr py_min_eq)


lemma find_skip_hd: "\<not> P a \<Longrightarrow> find P (a # xs) = find P xs"
  by simp

lemma find_skip_snd: "P x \<longrightarrow> P a \<Longrightarrow> find P (a # x # xs) = find P (a # xs)"
  by simp

lemma foldl_argmax:
  fixes g :: "'a \<Rightarrow> 'k::linorder"
  shows "\<exists>r. foldl (\<lambda>(maxitem, maxval) (item, val).
                  if val > maxval then (item, val) else (maxitem, maxval))
           (a, g a) (zip xs (map g xs)) = (r, g r)
         \<and> find (\<lambda>c. g c = Max (g ` set (a # xs))) (a # xs) = Some r"
proof (induction xs arbitrary: a)
  case Nil
  show ?case by simp
next
  case (Cons x xs)
  define N where "N = Max (g ` set (a # x # xs))"
  have ga: "g a \<le> N" and gx: "g x \<le> N"
    unfolding N_def by (rule Max_ge; simp)+
  show ?case
  proof (cases "g x > g a")
    case True
    from Cons [of x] obtain r where
      r: "foldl (\<lambda>(maxitem, maxval) (item, val).
                  if val > maxval then (item, val) else (maxitem, maxval))
           (x, g x) (zip xs (map g xs)) = (r, g r)"
      and f: "find (\<lambda>c. g c = Max (g ` set (x # xs))) (x # xs) = Some r" by blast
    have "N = Max (g ` set (x # xs))"
      unfolding N_def using True by (cases "set xs = {}") (auto simp: max_def)
    with f have f': "find (\<lambda>c. g c = N) (x # xs) = Some r" by (simp only:)
    from True gx have "g a \<noteq> N" by auto
    then have "find (\<lambda>c. g c = N) (a # x # xs) = find (\<lambda>c. g c = N) (x # xs)"
      by (rule find_skip_hd)
    with f' have "find (\<lambda>c. g c = N) (a # x # xs) = Some r" by (simp only:)
    moreover from r True have "foldl (\<lambda>(maxitem, maxval) (item, val).
                  if val > maxval then (item, val) else (maxitem, maxval))
           (a, g a) (zip (x # xs) (map g (x # xs))) = (r, g r)" by simp
    ultimately show ?thesis unfolding N_def by blast
  next
    case False
    from Cons [of a] obtain r where
      r: "foldl (\<lambda>(maxitem, maxval) (item, val).
                  if val > maxval then (item, val) else (maxitem, maxval))
           (a, g a) (zip xs (map g xs)) = (r, g r)"
      and f: "find (\<lambda>c. g c = Max (g ` set (a # xs))) (a # xs) = Some r" by blast
    have "N = Max (g ` set (a # xs))"
      unfolding N_def using False by (cases "set xs = {}") (auto simp: max_def)
    with f have f': "find (\<lambda>c. g c = N) (a # xs) = Some r" by (simp only:)
    from False ga have "g x = N \<longrightarrow> g a = N" by auto
    then have "find (\<lambda>c. g c = N) (a # x # xs) = find (\<lambda>c. g c = N) (a # xs)"
      by (rule find_skip_snd)
    with f' have "find (\<lambda>c. g c = N) (a # x # xs) = Some r" by (simp only:)
    moreover from r False have "foldl (\<lambda>(maxitem, maxval) (item, val).
                  if val > maxval then (item, val) else (maxitem, maxval))
           (a, g a) (zip (x # xs) (map g (x # xs))) = (r, g r)" by simp
    ultimately show ?thesis unfolding N_def by blast
  qed
qed

lemma foldl_argmin:
  fixes g :: "'a \<Rightarrow> 'k::linorder"
  shows "\<exists>r. foldl (\<lambda>(minitem, minval) (item, val).
                  if val < minval then (item, val) else (minitem, minval))
           (a, g a) (zip xs (map g xs)) = (r, g r)
         \<and> find (\<lambda>c. g c = Min (g ` set (a # xs))) (a # xs) = Some r"
proof (induction xs arbitrary: a)
  case Nil
  show ?case by simp
next
  case (Cons x xs)
  define N where "N = Min (g ` set (a # x # xs))"
  have ga: "N \<le> g a" and gx: "N \<le> g x"
    unfolding N_def by (rule Min_le; simp)+
  show ?case
  proof (cases "g x < g a")
    case True
    from Cons [of x] obtain r where
      r: "foldl (\<lambda>(minitem, minval) (item, val).
                  if val < minval then (item, val) else (minitem, minval))
           (x, g x) (zip xs (map g xs)) = (r, g r)"
      and f: "find (\<lambda>c. g c = Min (g ` set (x # xs))) (x # xs) = Some r" by blast
    have "N = Min (g ` set (x # xs))"
      unfolding N_def using True by (cases "set xs = {}") (auto simp: min_def)
    with f have f': "find (\<lambda>c. g c = N) (x # xs) = Some r" by (simp only:)
    from True gx have "g a \<noteq> N" by auto
    then have "find (\<lambda>c. g c = N) (a # x # xs) = find (\<lambda>c. g c = N) (x # xs)"
      by (rule find_skip_hd)
    with f' have "find (\<lambda>c. g c = N) (a # x # xs) = Some r" by (simp only:)
    moreover from r True have "foldl (\<lambda>(minitem, minval) (item, val).
                  if val < minval then (item, val) else (minitem, minval))
           (a, g a) (zip (x # xs) (map g (x # xs))) = (r, g r)" by simp
    ultimately show ?thesis unfolding N_def by blast
  next
    case False
    from Cons [of a] obtain r where
      r: "foldl (\<lambda>(minitem, minval) (item, val).
                  if val < minval then (item, val) else (minitem, minval))
           (a, g a) (zip xs (map g xs)) = (r, g r)"
      and f: "find (\<lambda>c. g c = Min (g ` set (a # xs))) (a # xs) = Some r" by blast
    have "N = Min (g ` set (a # xs))"
      unfolding N_def using False by (cases "set xs = {}") (auto simp: min_def)
    with f have f': "find (\<lambda>c. g c = N) (a # xs) = Some r" by (simp only:)
    from False ga have "g x = N \<longrightarrow> g a = N" by auto
    then have "find (\<lambda>c. g c = N) (a # x # xs) = find (\<lambda>c. g c = N) (a # xs)"
      by (rule find_skip_snd)
    with f' have "find (\<lambda>c. g c = N) (a # x # xs) = Some r" by (simp only:)
    moreover from r False have "foldl (\<lambda>(minitem, minval) (item, val).
                  if val < minval then (item, val) else (minitem, minval))
           (a, g a) (zip (x # xs) (map g (x # xs))) = (r, g r)" by simp
    ultimately show ?thesis unfolding N_def by blast
  qed
qed

lemma py_max_key_eq:
  assumes "\<And>x. x \<in> set xs \<Longrightarrow> f x = Inr (g x)" and "xs \<noteq> []"
  shows "\<exists>r. py_max_key f xs = Inr r \<and> first_highest g xs = Some r"
proof -
  from assms(2) obtain a ys where xs: "xs = a # ys" by (cases xs) auto
  have seq: "sequence (map f xs) = Inr (map g xs)"
    by (rule sequence_Inr) (rule assms(1))
  from foldl_argmax [where g = g and a = a and xs = ys] obtain r where
    "foldl (\<lambda>(maxitem, maxval) (item, val).
              if val > maxval then (item, val) else (maxitem, maxval))
       (a, g a) (zip ys (map g ys)) = (r, g r)"
    and "find (\<lambda>c. g c = Max (g ` set (a # ys))) (a # ys) = Some r" by blast
  then show ?thesis
    unfolding py_max_key_def first_highest_def bind_def seq
    by (simp add: xs)
qed

lemma py_min_key_eq:
  assumes "\<And>x. x \<in> set xs \<Longrightarrow> f x = Inr (g x)" and "xs \<noteq> []"
  shows "\<exists>r. py_min_key f xs = Inr r \<and> first_lowest g xs = Some r"
proof -
  from assms(2) obtain a ys where xs: "xs = a # ys" by (cases xs) auto
  have seq: "sequence (map f xs) = Inr (map g xs)"
    by (rule sequence_Inr) (rule assms(1))
  from foldl_argmin [where g = g and a = a and xs = ys] obtain r where
    "foldl (\<lambda>(minitem, minval) (item, val).
              if val < minval then (item, val) else (minitem, minval))
       (a, g a) (zip ys (map g ys)) = (r, g r)"
    and "find (\<lambda>c. g c = Min (g ` set (a # ys))) (a # ys) = Some r" by blast
  then show ?thesis
    unfolding py_min_key_def first_lowest_def bind_def seq
    by (simp add: xs)
qed

lemma category_row_eq: "category_row N A c = Inr (block_spec N A c)"
proof (cases "instances_of A c = []")
  case True
  then show ?thesis
    by (simp add: category_row_def block_spec_def zero_block_def annotations_by_cid_eq
        areas_by_cid_def bboxes_by_cid_def bind_def)
next
  case False
  then show ?thesis
    by (simp add: category_row_def block_spec_def annotations_by_cid_eq areas_by_cid_def
        bboxes_by_cid_def bind_def array_min_def array_max_def Let_def)
qed

lemma blocks_eq: "sequence (map (category_row N A) C) = Inr (map (block_spec N A) C)"
  by (rule sequence_Inr) (rule category_row_eq)

lemma cat_len_eq: "cat_len A c = Inr (count_stat A c)"
  by (simp add: cat_len_def count_stat_def annotations_by_cid_eq)

lemma cat_sum_eq: "cat_sum N A c = Inr (total_area_stat N A c)"
  by (simp add: cat_sum_def total_area_stat_def areas_by_cid_def annotations_by_cid_eq)

lemma cat_mean_eq: "cat_mean N A c = Inr (mean_area_stat N A c)"
  by (simp add: cat_mean_def mean_area_stat_def areas_by_cid_def annotations_by_cid_eq)

lemma cat_std_eq: "cat_std N A c = Inr (stdev_area_stat N A c)"
  by (simp add: cat_std_def stdev_area_stat_def areas_by_cid_def annotations_by_cid_eq)

lemma cat_min_eq: "c \<in> set (nonempty_categories C A) \<Longrightarrow> cat_min N A c = Inr (min_area_stat N A c)"
  by (simp add: cat_min_def min_area_stat_def areas_by_cid_def annotations_by_cid_eq array_min_def
      nonempty_categories_def)

lemma cat_max_eq: "c \<in> set (nonempty_categories C A) \<Longrightarrow> cat_max N A c = Inr (max_area_stat N A c)"
  by (simp add: cat_max_def max_area_stat_def areas_by_cid_def annotations_by_cid_eq array_max_def
      nonempty_categories_def)

text \<open>The shape of the row.\<close>

lemma create_index_row_shape:
  assumes ne: "nonempty_categories C A \<noteq> []"
  shows "\<exists>row. create_index_row N C fn A = Inr row
    \<and> NumInstances row = int (length A)
    \<and> NumCategories row = int (length (nonempty_categories C A))
    \<and> Highest_NumInstances row = Max (count_stat A ` set (nonempty_categories C A))
    \<and> Highest_TotalArea row = Max (total_area_stat N A ` set (nonempty_categories C A))
    \<and> Highest_MinArea row = Max (min_area_stat N A ` set (nonempty_categories C A))
    \<and> Highest_MeanArea row = Max (mean_area_stat N A ` set (nonempty_categories C A))
    \<and> Highest_MaxArea row = Max (max_area_stat N A ` set (nonempty_categories C A))
    \<and> Highest_StdevArea row = Max (stdev_area_stat N A ` set (nonempty_categories C A))
    \<and> Lowest_NumInstances row = Min (count_stat A ` set (nonempty_categories C A))
    \<and> Lowest_TotalArea row = Min (total_area_stat N A ` set (nonempty_categories C A))
    \<and> Lowest_MinArea row = Min (min_area_stat N A ` set (nonempty_categories C A))
    \<and> Lowest_MeanArea row = Min (mean_area_stat N A ` set (nonempty_categories C A))
    \<and> Lowest_MaxArea row = Min (max_area_stat N A ` set (nonempty_categories C A))
    \<and> Lowest_StdevArea row = Min (stdev_area_stat N A ` set (nonempty_categories C A))
    \<and> first_highest (count_stat A) (nonempty_categories C A) = Some (CategoryOf_Highest_NumInstances row)
    \<and> first_highest (total_area_stat N A) (nonempty_categories C A) = Some (CategoryOf_Highest_TotalArea row)
    \<and> first_highest (min_area_stat N A) (nonempty_categories C A) = Some (CategoryOf_Highest_MinArea row)
    \<and> first_highest (mean_area_stat N A) (nonempty_categories C A) = Some (CategoryOf_Highest_MeanArea row)
    \<and> first_highest (max_area_stat N A) (nonempty_categories C A) = Some (CategoryOf_Highest_MaxArea row)
    \<and> first_highest (stdev_area_stat N A) (nonempty_categories C A) = Some (CategoryOf_Highest_StdevArea row)
    \<and> first_lowest (count_stat A) (nonempty_categories C A) = Some (CategoryOf_Lowest_NumInstances row)
    \<and> first_lowest (total_area_stat N A) (nonempty_categories C A) = Some (CategoryOf_Lowest_TotalArea row)
    \<and> first_lowest (min_area_stat N A) (nonempty_categories C A) = Some (CategoryOf_Lowest_MinArea row)
    \<and> first_lowest (mean_area_stat N A) (nonempty_categories C A) = Some (CategoryOf_Lowest_MeanArea row)
    \<and> first_lowest (max_area_stat N A) (nonempty_categories C A) = Some (CategoryOf_Lowest_MaxArea row)
    \<and> first_lowest (stdev_area_stat N A) (nonempty_categories C A) = Some (CategoryOf_Lowest_StdevArea row)
    \<and> per_category row = map (block_spec N A) C"
proof -
  let ?ne = "nonempty_categories C A"
  from ne have "A \<noteq> []"
    by (auto simp: nonempty_categories_def instances_of_def)
  then have mn: "array_min N (map area A) = Inr (np_min N (map area A))"
    and mx: "array_max N (map area A) = Inr (np_max N (map area A))"
    by (simp_all add: array_min_def array_max_def)
  note v = py_max_of_eq [OF _ ne] py_min_of_eq [OF _ ne]
  have v1: "py_max_of (cat_len A) ?ne = Inr (Max (count_stat A ` set ?ne))"
    by (rule v) (rule cat_len_eq)
  have v2: "py_max_of (cat_sum N A) ?ne = Inr (Max (total_area_stat N A ` set ?ne))"
    by (rule v) (rule cat_sum_eq)
  have v3: "py_max_of (cat_min N A) ?ne = Inr (Max (min_area_stat N A ` set ?ne))"
    by (rule v) (rule cat_min_eq)
  have v4: "py_max_of (cat_mean N A) ?ne = Inr (Max (mean_area_stat N A ` set ?ne))"
    by (rule v) (rule cat_mean_eq)
  have v5: "py_max_of (cat_max N A) ?ne = Inr (Max (max_area_stat N A ` set ?ne))"
    by (rule v) (rule cat_max_eq)
  have v6: "py_max_of (cat_std N A) ?ne = Inr (Max (stdev_area_stat N A ` set ?ne))"
    by (rule v) (rule cat_std_eq)
  have w1: "py_min_of (cat_len A) ?ne = Inr (Min (count_stat A ` set ?ne))"
    by (rule v) (rule cat_len_eq)
  have w2: "py_min_of (cat_sum N A) ?ne = Inr (Min (total_area_stat N A ` set ?ne))"
    by (rule v) (rule cat_sum_eq)
  have w3: "py_min_of (cat_min N A) ?ne = Inr (Min (min_area_stat N A ` set ?ne))"
    by (rule v) (rule cat_min_eq)
  have w4: "py_min_of (cat_mean N A) ?ne = Inr (Min (mean_area_stat N A ` set ?ne))"
    by (rule v) (rule cat_mean_eq)
  have w5: "py_min_of (cat_max N A) ?ne = Inr (Min (max_area_stat N A ` set ?ne))"
    by (rule v) (rule cat_max_eq)
  have w6: "py_min_of (cat_std N A) ?ne = Inr (Min (stdev_area_stat N A ` set ?ne))"
    by (rule v) (rule cat_std_eq)
  obtain h1 where h1: "py_max_key (cat_len A) ?ne = Inr h1" "first_highest (count_stat A) ?ne = Some h1"
    using py_max_key_eq [where f = "cat_len A" and g = "count_stat A", OF cat_len_eq ne] by blast
  obtain h2 where h2: "py_max_key (cat_sum N A) ?ne = Inr h2" "first_highest (total_area_stat N A) ?ne = Some h2"
    using py_max_key_eq [where f = "cat_sum N A" and g = "total_area_stat N A", OF cat_sum_eq ne] by blast
  obtain h3 where h3: "py_max_key (cat_min N A) ?ne = Inr h3" "first_highest (min_area_stat N A) ?ne = Some h3"
    using py_max_key_eq [where f = "cat_min N A" and g = "min_area_stat N A", OF cat_min_eq [where C = C] ne] by blast
  obtain h4 where h4: "py_max_key (cat_mean N A) ?ne = Inr h4" "first_highest (mean_area_stat N A) ?ne = Some h4"
    using py_max_key_eq [where f = "cat_mean N A" and g = "mean_area_stat N A", OF cat_mean_eq ne] by blast
  obtain h5 where h5: "py_max_key (cat_max N A) ?ne = Inr h5" "first_highest (max_area_stat N A) ?ne = Some h5"
    using py_max_key_eq [where f = "cat_max N A" and g = "max_area_stat N A", OF cat_max_eq [where C = C] ne] by blast
  obtain h6 where h6: "py_max_key (cat_std N A) ?ne = Inr h6" "first_highest (stdev_area_stat N A) ?ne = Some h6"
    using py_max_key_eq [where f = "cat_std N A" and g = "stdev_area_stat N A", OF cat_std_eq ne] by blast
  obtain l1 where l1: "py_min_key (cat_len A) ?ne = Inr l1" "first_lowest (count_stat A) ?ne = Some l1"
    using py_min_key_eq [where f = "cat_len A" and g = "count_stat A", OF cat_len_eq ne] by blast
  obtain l2 where l2: "py_min_key (cat_sum N A) ?ne = Inr l2" "first_lowest (total_area_stat N A) ?ne = Some l2"
    using py_min_key_eq [where f = "cat_sum N A" and g = "total_area_stat N A", OF cat_sum_eq ne] by blast
  obtain l3 where l3: "py_min_key (cat_min N A) ?ne = Inr l3" "first_lowest (min_area_stat N A) ?ne = Some l3"
    using py_min_key_eq [where f = "cat_min N A" and g = "min_area_stat N A", OF cat_min_eq [where C = C] ne] by blast
  obtain l4 where l4: "py_min_key (cat_mean N A) ?ne = Inr l4" "first_lowest (mean_area_stat N A) ?ne = Some l4"
    using py_min_key_eq [where f = "cat_mean N A" and g = "mean_area_stat N A", OF cat_mean_eq ne] by blast
  obtain l5 where l5: "py_min_key (cat_max N A) ?ne = Inr l5" "first_lowest (max_area_stat N A) ?ne = Some l5"
    using py_min_key_eq [where f = "cat_max N A" and g = "max_area_stat N A", OF cat_max_eq [where C = C] ne] by blast
  obtain l6 where l6: "py_min_key (cat_std N A) ?ne = Inr l6" "first_lowest (stdev_area_stat N A) ?ne = Some l6"
    using py_min_key_eq [where f = "cat_std N A" and g = "stdev_area_stat N A", OF cat_std_eq ne] by blast
  show ?thesis
    unfolding create_index_row_def Let_def nonempty_category_ids_eq mn mx v1 v2 v3 v4 v5 v6
      w1 w2 w3 w4 w5 w6 h1(1) h2(1) h3(1) h4(1) h5(1) h6(1) l1(1) l2(1) l3(1) l4(1) l5(1) l6(1)
      blocks_eq bind_def sum.case
    by (simp add: h1(2) h2(2) h3(2) h4(2) h5(2) h6(2) l1(2) l2(2) l3(2) l4(2) l5(2) l6(2))
qed

lemma nonempty_categories_nonempty:
  "\<exists>a\<in>set A. category_id a \<in> set C \<Longrightarrow> nonempty_categories C A \<noteq> []"
proof -
  assume "\<exists>a\<in>set A. category_id a \<in> set C"
  then have "set (nonempty_categories C A) \<noteq> {}"
    unfolding set_nonempty_categories by auto
  then show ?thesis by auto
qed

lemma first_highest_SomeD:
  "first_highest g cs = Some r \<Longrightarrow> r \<in> set cs \<and> g r = Max (g ` set cs)"
  by (auto simp: first_highest_def find_Some_iff)

lemma first_lowest_SomeD:
  "first_lowest g cs = Some r \<Longrightarrow> r \<in> set cs \<and> g r = Min (g ` set cs)"
  by (auto simp: first_lowest_def find_Some_iff)

lemma find_sorted_least:
  fixes cs :: "'a::linorder list"
  assumes "sorted cs" and "find P cs = Some r" and "c \<in> set cs" and "P c"
  shows "r \<le> c"
proof -
  from assms(2) obtain i where i: "i < length cs" "cs ! i = r" "\<forall>j<i. \<not> P (cs ! j)"
    by (auto simp: find_Some_iff)
  from assms(3) obtain k where k: "k < length cs" "cs ! k = c"
    by (auto simp: in_set_conv_nth)
  with i(3) assms(4) have "i \<le> k" by (meson not_le)
  with assms(1) k i show ?thesis by (auto simp: sorted_iff_nth_mono)
qed

lemma first_highest_least:
  fixes cs :: "'a::linorder list"
  assumes "sorted cs" and "first_highest g cs = Some r" and "c \<in> set cs"
    and "g c = Max (g ` set cs)"
  shows "r \<le> c"
  using assms unfolding first_highest_def by (rule find_sorted_least)

lemma first_lowest_least:
  fixes cs :: "'a::linorder list"
  assumes "sorted cs" and "first_lowest g cs = Some r" and "c \<in> set cs"
    and "g c = Min (g ` set cs)"
  shows "r \<le> c"
  using assms unfolding first_lowest_def by (rule find_sorted_least)


lemma block_of_shape:
  "per_category row = map (block_spec N A) C \<Longrightarrow> c \<in> set C \<Longrightarrow> block_of C row c = Some (block_spec N A c)"
  by (simp add: block_of_def map_of_zip_map)

lemma NumInstances_block_spec: "NumInstances_cat (block_spec N A c) = count_stat A c"
  by (simp add: block_spec_def zero_block_def count_stat_def Let_def)

lemma sum_count_stat:
  assumes "finite S" and "\<forall>a\<in>set A. category_id a \<in> S"
  shows "(\<Sum>c\<in>S. count_stat A c) = int (length A)"
  using assms(2)
proof (induction A)
  case Nil
  then show ?case by (simp add: count_stat_def instances_of_def)
next
  case (Cons a A)
  have "(\<Sum>c\<in>S. count_stat (a # A) c)
        = (\<Sum>c\<in>S. (if c = category_id a then 1 else 0) + count_stat A c)"
    by (rule sum.cong) (auto simp: count_stat_def instances_of_def)
  also have "\<dots> = (\<Sum>c\<in>S. if c = category_id a then 1 else 0) + (\<Sum>c\<in>S. count_stat A c)"
    by (simp add: sum.distrib)
  also have "(\<Sum>c\<in>S. if c = category_id a then 1 else (0::int)) = 1"
    using assms(1) Cons.prems by simp
  finally show ?case using Cons by simp
qed

lemma sum_list_count_stat:
  assumes "distinct C" and "\<forall>a\<in>set A. category_id a \<in> set C"
  shows "sum_list (map (count_stat A) C) = int (length A)"
  using sum_count_stat [of "set C" A] assms by (simp add: sum_list_distinct_conv_sum_set)

text \<open>
  A sum that rounds: with \<open>10\<^sup>1\<^sup>6 + 1\<close> rounded to \<open>10\<^sup>1\<^sup>6\<close> the totals of two
  categories tie, and the first of them is the category of the highest total.
\<close>

lemma rounded_total_tie:
  assumes "np_sum N [10000000000000000] = 10000000000000000"
    and "np_sum N [10000000000000000, 1] = 10000000000000000"
  shows "\<exists>row. create_index_row N [1, 2] filename
           [\<lparr>category_id = 1, area = 10000000000000000 :: real, bbox = b1\<rparr>,
            \<lparr>category_id = 2, area = 10000000000000000, bbox = b2\<rparr>,
            \<lparr>category_id = 2, area = 1, bbox = b3\<rparr>] = Inr row
         \<and> CategoryOf_Highest_TotalArea row = 1"
proof -
  let ?A = "[\<lparr>category_id = 1, area = 10000000000000000 :: real, bbox = b1\<rparr>,
            \<lparr>category_id = 2, area = 10000000000000000, bbox = b2\<rparr>,
            \<lparr>category_id = 2, area = 1, bbox = b3\<rparr>]"
  have ne: "nonempty_categories [1, 2] ?A = [1, 2]"
    by (simp add: nonempty_categories_def instances_of_def)
  then have "nonempty_categories [1, 2] ?A \<noteq> []" by simp
  from create_index_row_shape [OF this, where fn = filename and N = N] obtain row where
    row: "create_index_row N [1, 2] filename ?A = Inr row"
    and hc: "first_highest (total_area_stat N ?A) (nonempty_categories [1, 2] ?A)
             = Some (CategoryOf_Highest_TotalArea row)"
    by blast
  have "total_area_stat N ?A 1 = 10000000000000000"
    and "total_area_stat N ?A 2 = 10000000000000000"
    using assms by (simp_all add: total_area_stat_def instances_of_def)
  then have "first_highest (total_area_stat N ?A) [1, 2] = Some 1"
    by (simp add: first_highest_def)
  with hc ne row show ?thesis by simp
qed

lemma create_index_row_no_known_category:
  assumes "nonempty_categories C A = []"
  shows "create_index_row N C filename A = Inl ValueError"
  using assms
  by (simp add: create_index_row_def Let_def bind_def nonempty_category_ids_eq array_min_def
      array_max_def py_max_of_def py_max_def)

text \<open>
  Claim C7.  \<open>create_index_row\<close> raises (\<open>ValueError\<close>, from \<open>areas.min()\<close>) on an
  annotation list with no annotation, whatever the categories and the file name; and on
  every annotation list with at least one annotation, with a non-empty sorted list of
  category ids that holds the category of each annotation, it returns a row.
\<close>

theorem create_index_row_empty_or_row:
  assumes "A \<noteq> []" and "C \<noteq> []" and "sorted C" and "\<forall>a\<in>set A. category_id a \<in> set C"
  shows "create_index_row N C' filename' [] = Inl ValueError \<and>
         (\<exists>row. create_index_row N C filename A = Inr row)"
proof -
  have "create_index_row N C' filename' [] = Inl ValueError"
    by (simp add: create_index_row_def Let_def bind_def array_min_def)
  moreover from assms(1,4) have "\<exists>a\<in>set A. category_id a \<in> set C"
    by (cases A) auto
  then have "nonempty_categories C A \<noteq> []"
    by (rule nonempty_categories_nonempty)
  from create_index_row_shape [OF this, where fn = filename and N = N]
  have "\<exists>row. create_index_row N C filename A = Inr row" by blast
  ultimately show ?thesis ..
qed

text \<open>
  Claim C1.  For a sorted list \<open>C\<close> of category ids and a non-empty annotation list \<open>A\<close>
  whose categories all are in \<open>C\<close>, the row has \<open>NumInstances = |A|\<close>, every \<open>c\<close> in \<open>C\<close>
  has its block in the row, and the counts \<open>NumInstances_<c>\<close> summed over the ids \<open>c\<close>
  in \<open>C\<close> give \<open>|A|\<close>.
\<close>

theorem num_instances_total:
  assumes "sorted C" and "A \<noteq> []" and "\<forall>a\<in>set A. category_id a \<in> set C"
  shows "\<exists>row blk. create_index_row N C filename A = Inr row
      \<and> NumInstances row = int (length A)
      \<and> (\<forall>c\<in>set C. block_of C row c = Some (blk c))
      \<and> (\<Sum>c\<in>set C. NumInstances_cat (blk c)) = int (length A)"
proof -
  from assms(2,3) have "\<exists>a\<in>set A. category_id a \<in> set C"
    by (cases A) auto
  then have "nonempty_categories C A \<noteq> []"
    by (rule nonempty_categories_nonempty)
  from create_index_row_shape [OF this, where fn = filename and N = N] obtain row where
    row: "create_index_row N C filename A = Inr row" "NumInstances row = int (length A)"
      "per_category row = map (block_spec N A) C" by blast
  have "\<forall>c\<in>set C. block_of C row c = Some (block_spec N A c)"
    using block_of_shape [OF row(3)] by blast
  moreover have "(\<Sum>c\<in>set C. NumInstances_cat (block_spec N A c)) = int (length A)"
    using sum_count_stat [of "set C" A] assms(3) by (simp add: NumInstances_block_spec)
  ultimately show ?thesis using row(1,2) by blast
qed

theorem create_index_row_empty_or_row_witness:
  "create_index_row exact_numpy [1, 2, 3] ''x.jpg'' [] = Inl ValueError \<and>
   (\<exists>row. create_index_row exact_numpy [1, 2, 3] ''Has13.jpg''
      example_annotations = Inr row)"
  by (rule create_index_row_empty_or_row) (simp_all add: example_annotations_def)

theorem num_instances_total_witness:
  "\<exists>row blk. create_index_row exact_numpy [1, 2, 3] ''Has13.jpg''
      example_annotations = Inr row
      \<and> NumInstances row = 3
      \<and> (\<forall>c\<in>set [1, 2, 3]. block_of [1, 2, 3] row c = Some (blk c))
      \<and> (\<Sum>c\<in>set [1, 2, 3]. NumInstances_cat (blk c)) = 3"
  using num_instances_total [where C = "[1, 2, 3]" and A = example_annotations
      and filename = "''Has13.jpg''" and N = exact_numpy]
  by (simp add: example_annotations_def)

lemma num_instances_blocks_sum_distinct:
  assumes "distinct C" and "\<exists>a\<in>set A. category_id a \<in> set C"
    and "\<forall>a\<in>set A. category_id a \<in> set C"
  shows "\<exists>row. create_index_row N C filename A = Inr row
      \<and> sum_list (map NumInstances_cat (per_category row)) = int (length A)"
proof -
  from assms(2) have "nonempty_categories C A \<noteq> []"
    by (rule nonempty_categories_nonempty)
  from create_index_row_shape [OF this, where fn = filename and N = N] obtain row where
    row: "create_index_row N C filename A = Inr row"
      "per_category row = map (block_spec N A) C" by blast
  have "map NumInstances_cat (map (block_spec N A) C) = map (count_stat A) C"
    by (simp add: NumInstances_block_spec)
  with sum_list_count_stat [OF assms(1,3)]
  have "sum_list (map NumInstances_cat (map (block_spec N A) C)) = int (length A)"
    by (simp only:)
  with row show ?thesis by (simp only: exI [of _ row])
qed


text \<open>
  Claim C3.  In the row of an image (sorted \<open>C\<close>, at least one annotation, a row being
  produced as some annotation's category is in \<open>C\<close>), the block of a category \<open>c\<close> of
  \<open>C\<close> without annotation in the image has all its ten fields equal to \<open>0\<close>: the function
  returns the row, and no field is left undefined.
\<close>

theorem absent_category_block_zero:
  assumes "sorted C" and "A \<noteq> []" and "\<exists>a\<in>set A. category_id a \<in> set C"
    and "c \<in> set C" and "\<forall>a\<in>set A. category_id a \<noteq> c"
  shows "\<exists>row b. create_index_row N C filename A = Inr row \<and> block_of C row c = Some b
      \<and> NumInstances_cat b = 0 \<and> TotalArea_cat b = 0 \<and> MinArea_cat b = 0
      \<and> MeanArea_cat b = 0 \<and> MaxArea_cat b = 0 \<and> StdevArea_cat b = 0
      \<and> MeanX_cat b = 0 \<and> MeanY_cat b = 0 \<and> StdevX_cat b = 0 \<and> StdevY_cat b = 0"
proof -
  from assms(3) have "nonempty_categories C A \<noteq> []"
    by (rule nonempty_categories_nonempty)
  from create_index_row_shape [OF this, where fn = filename and N = N] obtain row where
    row: "create_index_row N C filename A = Inr row"
      "per_category row = map (block_spec N A) C" by blast
  from assms(5) have "instances_of A c = []"
    by (auto simp: instances_of_def filter_empty_conv)
  then have "block_spec N A c = zero_block"
    by (simp add: block_spec_def)
  with block_of_shape [OF row(2) assms(4)] have "block_of C row c = Some zero_block"
    by simp
  with row(1) show ?thesis
    by (auto simp: zero_block_def)
qed

theorem absent_category_block_zero_witness:
  "\<exists>row b. create_index_row exact_numpy [1, 2, 3] ''Has13.jpg''
      example_annotations = Inr row
      \<and> block_of [1, 2, 3] row 2 = Some b
      \<and> NumInstances_cat b = 0 \<and> TotalArea_cat b = 0 \<and> MinArea_cat b = 0
      \<and> MeanArea_cat b = 0 \<and> MaxArea_cat b = 0 \<and> StdevArea_cat b = 0
      \<and> MeanX_cat b = 0 \<and> MeanY_cat b = 0 \<and> StdevX_cat b = 0 \<and> StdevY_cat b = 0"
  by (rule absent_category_block_zero) (simp_all add: example_annotations_def)

text \<open>
  Claim C6.  When the instances of the image span at least two nonempty categories of the
  sorted list \<open>C\<close>, the row has \<open>Highest_TotalArea \<ge> Lowest_TotalArea\<close>, and both
  \<open>CategoryOf_Highest_TotalArea\<close> and \<open>CategoryOf_Lowest_TotalArea\<close> are categories of
  \<open>C\<close> with at least one instance in the image.
\<close>

theorem total_area_extrema_ordered:
  assumes "sorted C" and "2 \<le> card (set (nonempty_categories C A))"
  shows "\<exists>row. create_index_row N C filename A = Inr row
      \<and> Highest_TotalArea row \<ge> Lowest_TotalArea row
      \<and> CategoryOf_Highest_TotalArea row \<in> set C
      \<and> (\<exists>a\<in>set A. category_id a = CategoryOf_Highest_TotalArea row)
      \<and> CategoryOf_Lowest_TotalArea row \<in> set C
      \<and> (\<exists>a\<in>set A. category_id a = CategoryOf_Lowest_TotalArea row)"
proof -
  let ?ne = "nonempty_categories C A"
  from assms(2) have ne: "?ne \<noteq> []" by auto
  from create_index_row_shape [OF this, where fn = filename and N = N] obtain row where
    row: "create_index_row N C filename A = Inr row"
    and hi: "Highest_TotalArea row = Max (total_area_stat N A ` set ?ne)"
    and lo: "Lowest_TotalArea row = Min (total_area_stat N A ` set ?ne)"
    and ch: "first_highest (total_area_stat N A) ?ne = Some (CategoryOf_Highest_TotalArea row)"
    and cl: "first_lowest (total_area_stat N A) ?ne = Some (CategoryOf_Lowest_TotalArea row)"
    by blast
  from ne obtain c where c: "c \<in> set ?ne" by (cases ?ne) auto
  then have "Min (total_area_stat N A ` set ?ne) \<le> total_area_stat N A c"
    and "total_area_stat N A c \<le> Max (total_area_stat N A ` set ?ne)"
    by simp_all
  then have "Min (total_area_stat N A ` set ?ne) \<le> Max (total_area_stat N A ` set ?ne)"
    by (rule order_trans)
  with hi lo have "Highest_TotalArea row \<ge> Lowest_TotalArea row" by simp
  moreover from first_highest_SomeD [OF ch]
  have "CategoryOf_Highest_TotalArea row \<in> set C \<inter> category_id ` set A"
    by (simp add: set_nonempty_categories)
  moreover from first_lowest_SomeD [OF cl]
  have "CategoryOf_Lowest_TotalArea row \<in> set C \<inter> category_id ` set A"
    by (simp add: set_nonempty_categories)
  ultimately show ?thesis using row by auto
qed

lemma example_nonempty_categories:
  "nonempty_categories [1, 2, 3]
      example_annotations = [1, 3]"
  by (simp add: nonempty_categories_def instances_of_def example_annotations_def)

theorem total_area_extrema_ordered_witness:
  "\<exists>row. create_index_row exact_numpy [1, 2, 3] ''Has13.jpg''
      example_annotations = Inr row
      \<and> Highest_TotalArea row \<ge> Lowest_TotalArea row
      \<and> CategoryOf_Highest_TotalArea row \<in> set [1, 2, 3]
      \<and> (\<exists>a\<in>set example_annotations.
            category_id a = CategoryOf_Highest_TotalArea row)
      \<and> CategoryOf_Lowest_TotalArea row \<in> set [1, 2, 3]
      \<and> (\<exists>a\<in>set example_annotations.
            category_id a = CategoryOf_Lowest_TotalArea row)"
  by (rule total_area_extrema_ordered) (simp_all add: example_nonempty_categories)

lemma block_spec_fields:
  assumes "instances_of A c \<noteq> []"
  shows "NumInstances_cat (block_spec N A c) = count_stat A c"
    and "TotalArea_cat (block_spec N A c) = total_area_stat N A c"
    and "MinArea_cat (block_spec N A c) = min_area_stat N A c"
    and "MeanArea_cat (block_spec N A c) = mean_area_stat N A c"
    and "MaxArea_cat (block_spec N A c) = max_area_stat N A c"
    and "StdevArea_cat (block_spec N A c) = stdev_area_stat N A c"
  using assms
  by (simp_all add: block_spec_def Let_def count_stat_def total_area_stat_def min_area_stat_def
      mean_area_stat_def max_area_stat_def stdev_area_stat_def)

lemma block_field_shape:
  assumes "per_category row = map (block_spec N A) C" and "c \<in> set (nonempty_categories C A)"
  shows "block_field NumInstances_cat C row c = Some (count_stat A c)"
    and "block_field TotalArea_cat C row c = Some (total_area_stat N A c)"
    and "block_field MinArea_cat C row c = Some (min_area_stat N A c)"
    and "block_field MeanArea_cat C row c = Some (mean_area_stat N A c)"
    and "block_field MaxArea_cat C row c = Some (max_area_stat N A c)"
    and "block_field StdevArea_cat C row c = Some (stdev_area_stat N A c)"
proof -
  from assms(2) have c: "c \<in> set C" and ne: "instances_of A c \<noteq> []"
    by (simp_all add: nonempty_categories_def)
  from block_of_shape [OF assms(1) c] have "block_of C row c = Some (block_spec N A c)" .
  then show "block_field NumInstances_cat C row c = Some (count_stat A c)"
    and "block_field TotalArea_cat C row c = Some (total_area_stat N A c)"
    and "block_field MinArea_cat C row c = Some (min_area_stat N A c)"
    and "block_field MeanArea_cat C row c = Some (mean_area_stat N A c)"
    and "block_field MaxArea_cat C row c = Some (max_area_stat N A c)"
    and "block_field StdevArea_cat C row c = Some (stdev_area_stat N A c)"
    by (simp_all add: block_field_def block_spec_fields [OF ne])
qed

text \<open>
  Claim C10.  For each of the six statistics (count, total, minimum, mean, maximum and
  standard deviation of the areas), \<open>Highest_*\<close> is that statistic, as \<open>numpy\<close> computes
  it, of the instances of the category \<open>CategoryOf_Highest_*\<close>, and it is the value the
  row itself holds for that statistic in the block of that category; likewise \<open>Lowest_*\<close>
  and the category \<open>CategoryOf_Lowest_*\<close>.
\<close>

theorem extrema_match_attributed_category:
  assumes "sorted C" and "A \<noteq> []" and "\<forall>a\<in>set A. category_id a \<in> set C"
  shows "\<exists>row. create_index_row N C filename A = Inr row
      \<and> Highest_NumInstances row = count_stat A (CategoryOf_Highest_NumInstances row)
      \<and> Highest_TotalArea row = total_area_stat N A (CategoryOf_Highest_TotalArea row)
      \<and> Highest_MinArea row = min_area_stat N A (CategoryOf_Highest_MinArea row)
      \<and> Highest_MeanArea row = mean_area_stat N A (CategoryOf_Highest_MeanArea row)
      \<and> Highest_MaxArea row = max_area_stat N A (CategoryOf_Highest_MaxArea row)
      \<and> Highest_StdevArea row = stdev_area_stat N A (CategoryOf_Highest_StdevArea row)
      \<and> Lowest_NumInstances row = count_stat A (CategoryOf_Lowest_NumInstances row)
      \<and> Lowest_TotalArea row = total_area_stat N A (CategoryOf_Lowest_TotalArea row)
      \<and> Lowest_MinArea row = min_area_stat N A (CategoryOf_Lowest_MinArea row)
      \<and> Lowest_MeanArea row = mean_area_stat N A (CategoryOf_Lowest_MeanArea row)
      \<and> Lowest_MaxArea row = max_area_stat N A (CategoryOf_Lowest_MaxArea row)
      \<and> Lowest_StdevArea row = stdev_area_stat N A (CategoryOf_Lowest_StdevArea row)
      \<and> block_field NumInstances_cat C row (CategoryOf_Highest_NumInstances row) = Some (Highest_NumInstances row)
      \<and> block_field TotalArea_cat C row (CategoryOf_Highest_TotalArea row) = Some (Highest_TotalArea row)
      \<and> block_field MinArea_cat C row (CategoryOf_Highest_MinArea row) = Some (Highest_MinArea row)
      \<and> block_field MeanArea_cat C row (CategoryOf_Highest_MeanArea row) = Some (Highest_MeanArea row)
      \<and> block_field MaxArea_cat C row (CategoryOf_Highest_MaxArea row) = Some (Highest_MaxArea row)
      \<and> block_field StdevArea_cat C row (CategoryOf_Highest_StdevArea row) = Some (Highest_StdevArea row)
      \<and> block_field NumInstances_cat C row (CategoryOf_Lowest_NumInstances row) = Some (Lowest_NumInstances row)
      \<and> block_field TotalArea_cat C row (CategoryOf_Lowest_TotalArea row) = Some (Lowest_TotalArea row)
      \<and> block_field MinArea_cat C row (CategoryOf_Lowest_MinArea row) = Some (Lowest_MinArea row)
      \<and> block_field MeanArea_cat C row (CategoryOf_Lowest_MeanArea row) = Some (Lowest_MeanArea row)
      \<and> block_field MaxArea_cat C row (CategoryOf_Lowest_MaxArea row) = Some (Lowest_MaxArea row)
      \<and> block_field StdevArea_cat C row (CategoryOf_Lowest_StdevArea row) = Some (Lowest_StdevArea row)"
proof -
  let ?ne = "nonempty_categories C A"
  from assms(2,3) have "\<exists>a\<in>set A. category_id a \<in> set C"
    by (cases A) auto
  then have "?ne \<noteq> []"
    by (rule nonempty_categories_nonempty)
  from create_index_row_shape [OF this, where fn = filename and N = N] obtain row where
    row: "create_index_row N C filename A = Inr row"
    and pc: "per_category row = map (block_spec N A) C"
    and hv_NumInstances: "Highest_NumInstances row = Max (count_stat A ` set ?ne)"
    and lv_NumInstances: "Lowest_NumInstances row = Min (count_stat A ` set ?ne)"
    and hc_NumInstances: "first_highest (count_stat A) ?ne = Some (CategoryOf_Highest_NumInstances row)"
    and lc_NumInstances: "first_lowest (count_stat A) ?ne = Some (CategoryOf_Lowest_NumInstances row)"
    and hv_TotalArea: "Highest_TotalArea row = Max (total_area_stat N A ` set ?ne)"
    and lv_TotalArea: "Lowest_TotalArea row = Min (total_area_stat N A ` set ?ne)"
    and hc_TotalArea: "first_highest (total_area_stat N A) ?ne = Some (CategoryOf_Highest_TotalArea row)"
    and lc_TotalArea: "first_lowest (total_area_stat N A) ?ne = Some (CategoryOf_Lowest_TotalArea row)"
    and hv_MinArea: "Highest_MinArea row = Max (min_area_stat N A ` set ?ne)"
    and lv_MinArea: "Lowest_MinArea row = Min (min_area_stat N A ` set ?ne)"
    and hc_MinArea: "first_highest (min_area_stat N A) ?ne = Some (CategoryOf_Highest_MinArea row)"
    and lc_MinArea: "first_lowest (min_area_stat N A) ?ne = Some (CategoryOf_Lowest_MinArea row)"
    and hv_MeanArea: "Highest_MeanArea row = Max (mean_area_stat N A ` set ?ne)"
    and lv_MeanArea: "Lowest_MeanArea row = Min (mean_area_stat N A ` set ?ne)"
    and hc_MeanArea: "first_highest (mean_area_stat N A) ?ne = Some (CategoryOf_Highest_MeanArea row)"
    and lc_MeanArea: "first_lowest (mean_area_stat N A) ?ne = Some (CategoryOf_Lowest_MeanArea row)"
    and hv_MaxArea: "Highest_MaxArea row = Max (max_area_stat N A ` set ?ne)"
    and lv_MaxArea: "Lowest_MaxArea row = Min (max_area_stat N A ` set ?ne)"
    and hc_MaxArea: "first_highest (max_area_stat N A) ?ne = Some (CategoryOf_Highest_MaxArea row)"
    and lc_MaxArea: "first_lowest (max_area_stat N A) ?ne = Some (CategoryOf_Lowest_MaxArea row)"
    and hv_StdevArea: "Highest_StdevArea row = Max (stdev_area_stat N A ` set ?ne)"
    and lv_StdevArea: "Lowest_StdevArea row = Min (stdev_area_stat N A ` set ?ne)"
    and hc_StdevArea: "first_highest (stdev_area_stat N A) ?ne = Some (CategoryOf_Highest_StdevArea row)"
    and lc_StdevArea: "first_lowest (stdev_area_stat N A) ?ne = Some (CategoryOf_Lowest_StdevArea row)"
    by blast
  note bf = block_field_shape [OF pc]
  have H_NumInstances: "Highest_NumInstances row = count_stat A (CategoryOf_Highest_NumInstances row)"
      "block_field NumInstances_cat C row (CategoryOf_Highest_NumInstances row) = Some (Highest_NumInstances row)"
    using first_highest_SomeD [OF hc_NumInstances] hv_NumInstances by (simp_all add: bf)
  have H_TotalArea: "Highest_TotalArea row = total_area_stat N A (CategoryOf_Highest_TotalArea row)"
      "block_field TotalArea_cat C row (CategoryOf_Highest_TotalArea row) = Some (Highest_TotalArea row)"
    using first_highest_SomeD [OF hc_TotalArea] hv_TotalArea by (simp_all add: bf)
  have H_MinArea: "Highest_MinArea row = min_area_stat N A (CategoryOf_Highest_MinArea row)"
      "block_field MinArea_cat C row (CategoryOf_Highest_MinArea row) = Some (Highest_MinArea row)"
    using first_highest_SomeD [OF hc_MinArea] hv_MinArea by (simp_all add: bf)
  have H_MeanArea: "Highest_MeanArea row = mean_area_stat N A (CategoryOf_Highest_MeanArea row)"
      "block_field MeanArea_cat C row (CategoryOf_Highest_MeanArea row) = Some (Highest_MeanArea row)"
    using first_highest_SomeD [OF hc_MeanArea] hv_MeanArea by (simp_all add: bf)
  have H_MaxArea: "Highest_MaxArea row = max_area_stat N A (CategoryOf_Highest_MaxArea row)"
      "block_field MaxArea_cat C row (CategoryOf_Highest_MaxArea row) = Some (Highest_MaxArea row)"
    using first_highest_SomeD [OF hc_MaxArea] hv_MaxArea by (simp_all add: bf)
  have H_StdevArea: "Highest_StdevArea row = stdev_area_stat N A (CategoryOf_Highest_StdevArea row)"
      "block_field StdevArea_cat C row (CategoryOf_Highest_StdevArea row) = Some (Highest_StdevArea row)"
    using first_highest_SomeD [OF hc_StdevArea] hv_StdevArea by (simp_all add: bf)
  have L_NumInstances: "Lowest_NumInstances row = count_stat A (CategoryOf_Lowest_NumInstances row)"
      "block_field NumInstances_cat C row (CategoryOf_Lowest_NumInstances row) = Some (Lowest_NumInstances row)"
    using first_lowest_SomeD [OF lc_NumInstances] lv_NumInstances by (simp_all add: bf)
  have L_TotalArea: "Lowest_TotalArea row = total_area_stat N A (CategoryOf_Lowest_TotalArea row)"
      "block_field TotalArea_cat C row (CategoryOf_Lowest_TotalArea row) = Some (Lowest_TotalArea row)"
    using first_lowest_SomeD [OF lc_TotalArea] lv_TotalArea by (simp_all add: bf)
  have L_MinArea: "Lowest_MinArea row = min_area_stat N A (CategoryOf_Lowest_MinArea row)"
      "block_field MinArea_cat C row (CategoryOf_Lowest_MinArea row) = Some (Lowest_MinArea row)"
    using first_lowest_SomeD [OF lc_MinArea] lv_MinArea by (simp_all add: bf)
  have L_MeanArea: "Lowest_MeanArea row = mean_area_stat N A (CategoryOf_Lowest_MeanArea row)"
      "block_field MeanArea_cat C row (CategoryOf_Lowest_MeanArea row) = Some (Lowest_MeanArea row)"
    using first_lowest_SomeD [OF lc_MeanArea] lv_MeanArea by (simp_all add: bf)
  have L_MaxArea: "Lowest_MaxArea row = max_area_stat N A (CategoryOf_Lowest_MaxArea row)"
      "block_field MaxArea_cat C row (CategoryOf_Lowest_MaxArea row) = Some (Lowest_MaxArea row)"
    using first_lowest_SomeD [OF lc_MaxArea] lv_MaxArea by (simp_all add: bf)
  have L_StdevArea: "Lowest_StdevArea row = stdev_area_stat N A (CategoryOf_Lowest_StdevArea row)"
      "block_field StdevArea_cat C row (CategoryOf_Lowest_StdevArea row) = Some (Lowest_StdevArea row)"
    using first_lowest_SomeD [OF lc_StdevArea] lv_StdevArea by (simp_all add: bf)
  show ?thesis
    by (rule exI [of _ row]) (simp only: row H_NumInstances H_TotalArea H_MinArea H_MeanArea H_MaxArea H_StdevArea L_NumInstances L_TotalArea L_MinArea L_MeanArea L_MaxArea L_StdevArea simp_thms)
qed

theorem extrema_match_attributed_category_witness:
  "\<exists>row. create_index_row exact_numpy [1, 2, 3] ''Has13.jpg'' example_annotations = Inr row
      \<and> Highest_NumInstances row = count_stat example_annotations (CategoryOf_Highest_NumInstances row)
      \<and> Highest_TotalArea row = total_area_stat exact_numpy example_annotations (CategoryOf_Highest_TotalArea row)
      \<and> Highest_MinArea row = min_area_stat exact_numpy example_annotations (CategoryOf_Highest_MinArea row)
      \<and> Highest_MeanArea row = mean_area_stat exact_numpy example_annotations (CategoryOf_Highest_MeanArea row)
      \<and> Highest_MaxArea row = max_area_stat exact_numpy example_annotations (CategoryOf_Highest_MaxArea row)
      \<and> Highest_StdevArea row = stdev_area_stat exact_numpy example_annotations (CategoryOf_Highest_StdevArea row)
      \<and> Lowest_NumInstances row = count_stat example_annotations (CategoryOf_Lowest_NumInstances row)
      \<and> Lowest_TotalArea row = total_area_stat exact_numpy example_annotations (CategoryOf_Lowest_TotalArea row)
      \<and> Lowest_MinArea row = min_area_stat exact_numpy example_annotations (CategoryOf_Lowest_MinArea row)
      \<and> Lowest_MeanArea row = mean_area_stat exact_numpy example_annotations (CategoryOf_Lowest_MeanArea row)
      \<and> Lowest_MaxArea row = max_area_stat exact_numpy example_annotations (CategoryOf_Lowest_MaxArea row)
      \<and> Lowest_StdevArea row = stdev_area_stat exact_numpy example_annotations (CategoryOf_Lowest_StdevArea row)
      \<and> block_field NumInstances_cat [1, 2, 3] row (CategoryOf_Highest_NumInstances row) = Some (Highest_NumInstances row)
      \<and> block_field TotalArea_cat [1, 2, 3] row (CategoryOf_Highest_TotalArea row) = Some (Highest_TotalArea row)
      \<and> block_field MinArea_cat [1, 2, 3] row (CategoryOf_Highest_MinArea row) = Some (Highest_MinArea row)
      \<and> block_field MeanArea_cat [1, 2, 3] row (CategoryOf_Highest_MeanArea row) = Some (Highest_MeanArea row)
      \<and> block_field MaxArea_cat [1, 2, 3] row (CategoryOf_Highest_MaxArea row) = Some (Highest_MaxArea row)
      \<and> block_field StdevArea_cat [1, 2, 3] row (CategoryOf_Highest_StdevArea row) = Some (Highest_StdevArea row)
      \<and> block_field NumInstances_cat [1, 2, 3] row (CategoryOf_Lowest_NumInstances row) = Some (Lowest_NumInstances row)
      \<and> block_field TotalArea_cat [1, 2, 3] row (CategoryOf_Lowest_TotalArea row) = Some (Lowest_TotalArea row)
      \<and> block_field MinArea_cat [1, 2, 3] row (CategoryOf_Lowest_MinArea row) = Some (Lowest_MinArea row)
      \<and> block_field MeanArea_cat [1, 2, 3] row (CategoryOf_Lowest_MeanArea row) = Some (Lowest_MeanArea row)
      \<and> block_field MaxArea_cat [1, 2, 3] row (CategoryOf_Lowest_MaxArea row) = Some (Lowest_MaxArea row)
      \<and> block_field StdevArea_cat [1, 2, 3] row (CategoryOf_Lowest_StdevArea row) = Some (Lowest_StdevArea row)"
  by (rule extrema_match_attributed_category) (simp_all add: example_annotations_def)



section \<open>Properties of the index builders\<close>

lemma imap_table:
  "foldl (\<lambda>tbl i. if i < n then tbl(i \<mapsto> f (jobs ! i)) else tbl) t completion i
   = (if i \<in> set completion \<and> i < n then Some (f (jobs ! i)) else t i)"
  by (induction completion arbitrary: t) auto

lemma pool_imap_complete:
  assumes "{..<length jobs} \<subseteq> set completion"
  shows "pool_imap f jobs completion = map (\<lambda>j. Some (f j)) jobs"
proof -
  have tbl: "foldl (\<lambda>tbl i. if i < length jobs then tbl(i \<mapsto> f (jobs ! i)) else tbl)
               Map.empty completion
             = (\<lambda>i. if i \<in> set completion \<and> i < length jobs then Some (f (jobs ! i)) else None)"
    by (rule ext) (simp add: imap_table)
  have "map (\<lambda>i. if i \<in> set completion \<and> i < length jobs then Some (f (jobs ! i)) else None)
          [0..<length jobs] = map (\<lambda>i. Some (f (jobs ! i))) [0..<length jobs]"
    using assms by (intro map_cong) auto
  also have "\<dots> = map (\<lambda>j. Some (f j)) (map (\<lambda>i. jobs ! i) [0..<length jobs])"
    by (simp add: comp_def)
  also have "\<dots> = map (\<lambda>j. Some (f j)) jobs"
    by (simp only: map_nth)
  finally show ?thesis
    unfolding pool_imap_def Let_def tbl .
qed

lemma write_results_rows:
  "write_results fp (map (\<lambda>(filename, annotations).
       Some (create_index_row_str str_real N category_ids filename annotations sep)) items)
   = Some (write_rows str_real N category_ids sep fp items)"
proof (induction items arbitrary: fp)
  case Nil
  show ?case by simp
next
  case (Cons it items)
  obtain filename annotations where it: "it = (filename, annotations)" by (cases it)
  show ?case
    by (cases "create_index_row_str str_real N category_ids filename annotations sep")
       (simp_all add: it Cons)
qed

lemma wrapped_jobs:
  "map (\<lambda>j. Some (wrapped_create_index_row str_real N j))
       (map (\<lambda>(filename, annotations). (category_ids, filename, annotations, sep)) items)
   = map (\<lambda>(filename, annotations).
       Some (create_index_row_str str_real N category_ids filename annotations sep)) items"
  by (induction items) (auto simp: wrapped_create_index_row_def)

lemma multiprocessing_eq_sequentially:
  assumes "{..<length items} \<subseteq> set completion"
  shows "create_index_multiprocessing str_real N categories items sep completion
         = Some (create_index_sequentially str_real N categories items sep)"
proof -
  let ?cids = "sort (map cat_id categories)"
  let ?jobs = "map (\<lambda>(filename, annotations). (?cids, filename, annotations, sep)) items"
  from assms have "{..<length ?jobs} \<subseteq> set completion" by simp
  then have "pool_imap (wrapped_create_index_row str_real N) ?jobs completion
        = map (\<lambda>j. Some (wrapped_create_index_row str_real N j)) ?jobs"
    by (rule pool_imap_complete)
  then show ?thesis
    unfolding create_index_multiprocessing_def create_index_sequentially_def Let_def
    by (simp only: wrapped_jobs write_results_rows)
qed

lemma write_rows_all:
  assumes "\<And>filename annotations. (filename, annotations) \<in> set items \<Longrightarrow>
             \<exists>row. create_index_row_str str_real N category_ids filename annotations sep = Inr row"
  shows "\<exists>rows. write_rows str_real N category_ids sep fp items = (None, fp @ rows)
           \<and> length rows = length items"
  using assms
proof (induction items arbitrary: fp)
  case Nil
  show ?case by simp
next
  case (Cons it items)
  obtain filename annotations where it: "it = (filename, annotations)" by (cases it)
  from Cons.prems [of filename annotations] obtain row where
    row: "create_index_row_str str_real N category_ids filename annotations sep = Inr row"
    by (auto simp: it)
  from Cons.IH [of "fp @ [row]"] Cons.prems obtain rows where
    "write_rows str_real N category_ids sep (fp @ [row]) items = (None, (fp @ [row]) @ rows)"
    "length rows = length items" by auto
  then have "write_rows str_real N category_ids sep fp (it # items) = (None, fp @ (row # rows))
      \<and> length (row # rows) = length (it # items)"
    by (simp add: it row)
  then show ?case by blast
qed

lemma create_index_row_str_returns:
  assumes "annotations \<noteq> []" and "\<forall>a\<in>set annotations. category_id a \<in> set category_ids"
  shows "\<exists>row. create_index_row_str str_real N category_ids filename annotations sep = Inr row"
proof -
  from assms have "\<exists>a\<in>set annotations. category_id a \<in> set category_ids"
    by (cases annotations) auto
  then have "nonempty_categories category_ids annotations \<noteq> []"
    by (rule nonempty_categories_nonempty)
  from create_index_row_shape [OF this, where fn = filename and N = N] show ?thesis
    by (auto simp: create_index_row_str_def bind_def)
qed

text \<open>
  Claim C8.  When every image has at least one annotation and every annotation's category
  is one of \<open>categories\<close>, and the pool finishes every job once, in whatever order,
  \<open>create_index_sequentially\<close> and \<open>create_index_multiprocessing\<close> both end without
  error, having written the same header and the same multiset of rows, one row for each
  image.
\<close>

theorem builders_same_table:
  assumes "mset completion = mset [0..<length annotations_by_filename]"
    and "\<forall>(filename, annotations)\<in>set annotations_by_filename.
           annotations \<noteq> [] \<and> (\<forall>a\<in>set annotations. category_id a \<in> cat_id ` set categories)"
  shows "\<exists>header rows rows'.
           create_index_sequentially str_real N categories annotations_by_filename sep
             = (None, header # rows)
         \<and> create_index_multiprocessing str_real N categories annotations_by_filename sep completion
             = Some (None, header # rows')
         \<and> header = create_header_row (sort (map cat_id categories)) sep
         \<and> length rows = length annotations_by_filename
         \<and> mset rows = mset rows'"
proof -
  let ?cids = "sort (map cat_id categories)"
  from assms(1) have "set completion = set [0..<length annotations_by_filename]"
    by (rule mset_eq_setD)
  then have "set completion = {..<length annotations_by_filename}"
    by (simp only: set_upt lessThan_atLeast0)
  then have sub: "{..<length annotations_by_filename} \<subseteq> set completion"
    by (simp only: subset_refl)
  have "\<exists>row. create_index_row_str str_real N ?cids filename annotations sep = Inr row"
    if mem: "(filename, annotations) \<in> set annotations_by_filename" for filename annotations
  proof (rule create_index_row_str_returns)
    from assms(2) mem
    have *: "annotations \<noteq> [] \<and> (\<forall>a\<in>set annotations. category_id a \<in> cat_id ` set categories)"
      by fast
    from * show "annotations \<noteq> []" by simp
    from * show "\<forall>a\<in>set annotations. category_id a \<in> set ?cids" by simp
  qed
  from write_rows_all [where items = annotations_by_filename and str_real = str_real and N = N
      and category_ids = ?cids and sep = sep and fp = "[create_header_row ?cids sep]", OF this]
  obtain rows where
    "write_rows str_real N ?cids sep [create_header_row ?cids sep] annotations_by_filename
       = (None, [create_header_row ?cids sep] @ rows)"
    "length rows = length annotations_by_filename" by blast
  then have seq: "create_index_sequentially str_real N categories annotations_by_filename sep
       = (None, create_header_row ?cids sep # rows)"
    and len: "length rows = length annotations_by_filename"
    by (simp_all add: create_index_sequentially_def Let_def)
  from multiprocessing_eq_sequentially [OF sub] seq
  have mp: "create_index_multiprocessing str_real N categories annotations_by_filename sep completion
       = Some (None, create_header_row ?cids sep # rows)" by (simp only:)
  show ?thesis
    by (rule exI [of _ "create_header_row ?cids sep"], rule exI [of _ rows], rule exI [of _ rows])
       (simp add: seq mp len)
qed

theorem builders_same_table_witness:
  "\<forall>str_real sep. \<exists>header rows rows'.
           create_index_sequentially str_real exact_numpy
               [\<lparr>cat_id = 3, cat_name = ''car''\<rparr>, \<lparr>cat_id = 1, cat_name = ''tank''\<rparr>,
                \<lparr>cat_id = 2, cat_name = ''ship''\<rparr>]
               [(''Has13.jpg'', example_annotations),
                (''Has2.jpg'', [\<lparr>category_id = 2, area = 5, bbox = (1, 1, 2, 2)\<rparr>])] sep
             = (None, header # rows)
         \<and> create_index_multiprocessing str_real exact_numpy
               [\<lparr>cat_id = 3, cat_name = ''car''\<rparr>, \<lparr>cat_id = 1, cat_name = ''tank''\<rparr>,
                \<lparr>cat_id = 2, cat_name = ''ship''\<rparr>]
               [(''Has13.jpg'', example_annotations),
                (''Has2.jpg'', [\<lparr>category_id = 2, area = 5, bbox = (1, 1, 2, 2)\<rparr>])] sep [1, 0]
             = Some (None, header # rows')
         \<and> header = create_header_row [1, 2, 3] sep
         \<and> length rows = 2
         \<and> mset rows = mset rows'"
  (is "\<forall>str_real sep. ?P str_real sep")
proof (intro allI)
  fix str_real :: "real \<Rightarrow> string" and sep :: string
  have c: "mset [1, 0] = mset [0..<length [(''Has13.jpg'', example_annotations),
                (''Has2.jpg'', [\<lparr>category_id = 2, area = 5, bbox = (1, 1, 2, 2)\<rparr>])]]"
    by simp
  have h: "\<forall>(filename, annotations)\<in>set [(''Has13.jpg'', example_annotations),
                (''Has2.jpg'', [\<lparr>category_id = 2, area = 5, bbox = (1, 1, 2, 2)\<rparr>])].
           annotations \<noteq> [] \<and> (\<forall>a\<in>set annotations. category_id a \<in> cat_id ` set
               [\<lparr>cat_id = 3, cat_name = ''car''\<rparr>, \<lparr>cat_id = 1, cat_name = ''tank''\<rparr>,
                \<lparr>cat_id = 2, cat_name = ''ship''\<rparr>])"
    by (simp add: example_annotations_def)
  have s: "sort (map cat_id [\<lparr>cat_id = 3, cat_name = ''car''\<rparr>, \<lparr>cat_id = 1, cat_name = ''tank''\<rparr>,
                \<lparr>cat_id = 2, cat_name = ''ship''\<rparr>]) = [1, 2, 3]"
    by simp
  have l: "length [(''Has13.jpg'', example_annotations),
                (''Has2.jpg'', [\<lparr>category_id = 2, area = 5, bbox = (1, 1, 2, 2)\<rparr>])] = 2"
    by simp
  show "?P str_real sep"
    using builders_same_table [OF c h, where str_real = str_real and sep = sep and N = exact_numpy] unfolding s l .
qed

section \<open>Properties of the header and of \<open>get_classes\<close>\<close>

subsection \<open>Decimal numerals\<close>

lemma is_digit_digit_char: "d < 10 \<Longrightarrow> is_digit (digit_char d)"
  by (simp add: is_digit_def digit_char_def)

lemma digit_val_digit_char: "d < 10 \<Longrightarrow> digit_val (digit_char d) = d"
  by (simp add: digit_val_def digit_char_def)

lemma digits_all_digit: "list_all is_digit (digits n)"
proof (induction n rule: digits.induct)
  case (1 n)
  show ?case
  proof (cases "n < 10")
    case True
    then show ?thesis by (subst digits.simps) (simp add: is_digit_digit_char)
  next
    case False
    with 1 show ?thesis by (subst digits.simps) (simp add: is_digit_digit_char)
  qed
qed

lemma digits_nonempty: "digits n \<noteq> []"
  by (subst digits.simps) simp

lemma digits_value: "foldl (\<lambda>acc c. 10 * acc + digit_val c) 0 (digits n) = n"
proof (induction n rule: digits.induct)
  case (1 n)
  show ?case
  proof (cases "n < 10")
    case True
    then show ?thesis by (subst digits.simps) (simp add: digit_val_digit_char)
  next
    case False
    with 1 show ?thesis by (subst digits.simps) (simp add: digit_val_digit_char)
  qed
qed

lemma parse_nat_digits: "parse_nat (digits n) = Some n"
  by (simp add: parse_nat_def digits_nonempty digits_all_digit digits_value)

lemma py_int_py_str_int: "py_int (py_str_int n) = Inr n"
proof (cases "n < 0")
  case True
  then show ?thesis
    by (simp add: py_int_def py_str_int_def parse_nat_digits)
next
  case False
  obtain c r where cr: "digits (nat n) = c # r"
    using digits_nonempty [of "nat n"] by (cases "digits (nat n)") auto
  with digits_all_digit [of "nat n"] have "is_digit c" by simp
  then have "c \<noteq> CHR ''-''" and "c \<noteq> CHR ''+''"
    by (auto simp: is_digit_def)
  with False parse_nat_digits [of "nat n"] show ?thesis
    by (simp add: py_int_def py_str_int_def cr)
qed

lemma py_str_int_inj: "py_str_int m = py_str_int n \<Longrightarrow> m = n"
  by (metis py_int_py_str_int sum.inject(2))

lemma py_str_int_chars: "c \<in> set (py_str_int n) \<Longrightarrow> numeral_char c"
  using digits_all_digit [of "nat n"] digits_all_digit [of "nat (- n)"]
  by (auto simp: py_str_int_def numeral_char_def list_all_iff split: if_splits)

lemma not_numeral_char [simp]:
  "\<not> numeral_char CHR '',''" "\<not> numeral_char CHR ''_''" "\<not> numeral_char CHR ''N''"
  by (simp_all add: numeral_char_def is_digit_def)

subsection \<open>Splitting and joining\<close>

lemma split_on_nonempty: "split_on c s \<noteq> []"
  by (induction s) (auto split: list.splits)

lemma split_on_no_sep: "c \<notin> set s \<Longrightarrow> split_on c s = [s]"
  by (induction s) auto

lemma split_on_append: "c \<notin> set a \<Longrightarrow> split_on c (a @ c # d) = a # split_on c d"
  by (induction a) auto

lemma split_on_join:
  assumes "cols \<noteq> []" and "\<forall>col\<in>set cols. c \<notin> set col"
  shows "split_on c (join [c] cols) = cols"
  using assms
proof (induction "[c]" cols rule: join.induct)
  case 1
  then show ?case by simp
next
  case (2 x)
  then show ?case by (simp add: split_on_no_sep)
next
  case (3 x y ys)
  then show ?case by (simp add: split_on_append)
qed

subsection \<open>The substring test\<close>

lemma is_prefix_append: "is_prefix p (p @ s)"
  by (induction p) auto

lemma contains_prefix: "p \<noteq> [] \<Longrightarrow> contains p (p @ s)"
  by (cases p) (auto simp: is_prefix_append)

lemma contains_hd_mem: "contains (c # p) s \<Longrightarrow> c \<in> set s"
  by (induction s) auto

subsection \<open>Renaming of repeated column names\<close>

lemma dedup_loop_fresh: "count_of counts col = 0 \<Longrightarrow> dedup_loop counts col = (counts, col)"
  by (subst dedup_loop.simps) simp

lemma dedup_names_from_distinct:
  assumes "distinct names" and "\<forall>n\<in>set names. count_of counts n = 0"
  shows "dedup_names_from counts names = names"
  using assms
proof (induction names arbitrary: counts)
  case Nil
  show ?case by simp
next
  case (Cons col names)
  have "\<forall>n\<in>set names. count_of ((col, count_of counts col + 1) # counts) n = 0"
    using Cons.prems by (auto simp: count_of_def)
  with Cons show ?case
    by (simp add: dedup_loop_fresh)
qed

lemma dedup_names_distinct: "distinct names \<Longrightarrow> dedup_names names = names"
  by (simp add: dedup_names_def dedup_names_from_distinct count_of_def)

subsection \<open>The header\<close>

lemma py_str_int_nonempty: "py_str_int n \<noteq> []"
  by (simp add: py_str_int_def digits_nonempty)

lemma py_str_int_no_char: "\<not> numeral_char c \<Longrightarrow> c \<notin> set (py_str_int n)"
  using py_str_int_chars by blast

lemma last_py_str_int: "is_digit (last (py_str_int n))"
proof -
  have "is_digit (last (digits k))" for k
    using digits_all_digit [of k] digits_nonempty [of k]
    by (simp add: list_all_iff)
  then show ?thesis
    by (simp add: py_str_int_def digits_nonempty)
qed

lemma prefix_takeWhile:
  "\<forall>p\<in>set category_prefixes. takeWhile (\<lambda>c. c \<noteq> CHR ''_'') p @ ''_'' = p"
  by (simp add: category_prefixes_def)

lemma prefix_stem:
  assumes "p \<in> set category_prefixes"
  shows "\<exists>a. p = a @ ''_'' \<and> CHR ''_'' \<notin> set a"
proof (intro exI conjI)
  show "p = takeWhile (\<lambda>c. c \<noteq> CHR ''_'') p @ ''_''"
    using prefix_takeWhile assms by simp
  show "CHR ''_'' \<notin> set (takeWhile (\<lambda>c. c \<noteq> CHR ''_'') p)"
    by (auto dest: set_takeWhileD)
qed

lemma category_column_eq:
  assumes "p \<in> set category_prefixes" and "p' \<in> set category_prefixes"
    and "p @ py_str_int c = p' @ py_str_int c'"
  shows "p = p' \<and> c = c'"
proof -
  from prefix_stem [OF assms(1)] obtain a where a: "p = a @ ''_''" "CHR ''_'' \<notin> set a" by blast
  from prefix_stem [OF assms(2)] obtain a' where a': "p' = a' @ ''_''" "CHR ''_'' \<notin> set a'" by blast
  from assms(3) have "a @ CHR ''_'' # py_str_int c = a' @ CHR ''_'' # py_str_int c'"
    by (simp add: a a')
  moreover have "CHR ''_'' \<notin> set (py_str_int c)"
    by (simp add: py_str_int_no_char)
  ultimately have "a = a' \<and> py_str_int c = py_str_int c'"
    using a(2) by (simp add: append_Cons_eq_iff)
  then show ?thesis
    by (auto simp: a a' dest: py_str_int_inj)
qed

lemma distinct_category_prefixes: "distinct category_prefixes"
  by (simp add: category_prefixes_def)

lemma distinct_category_columns: "distinct (category_columns c)"
  unfolding category_columns_def
  by (simp add: distinct_map distinct_category_prefixes inj_on_def)

lemma category_columns_disjoint:
  assumes "x \<in> set (category_columns c)" and "x \<in> set (category_columns c')"
  shows "c = c'"
  using assms category_column_eq unfolding category_columns_def by auto

lemma distinct_all_category_columns:
  "distinct C \<Longrightarrow> distinct (concat (map category_columns C))"
proof (induction C)
  case Nil
  show ?case by simp
next
  case (Cons c C)
  have "set (category_columns c) \<inter> set (concat (map category_columns C)) = {}"
    using Cons.prems category_columns_disjoint by fastforce
  with Cons show ?case
    by (simp add: distinct_category_columns)
qed

lemma category_column_last_digit:
  "x \<in> set (category_columns c) \<Longrightarrow> is_digit (last x)"
  by (auto simp: category_columns_def py_str_int_nonempty last_py_str_int)

lemma fixed_columns_last: "\<forall>x\<in>set fixed_columns. \<not> is_digit (last x)"
  by (simp add: fixed_columns_def is_digit_def)

lemma fixed_column_last_no_digit:
  "x \<in> set fixed_columns \<Longrightarrow> \<not> is_digit (last x)"
  using fixed_columns_last by blast

lemma distinct_fixed_columns: "distinct fixed_columns"
  by (simp add: fixed_columns_def)

lemma distinct_header_columns: "distinct C \<Longrightarrow> distinct (header_columns C)"
  unfolding header_columns_def
  using category_column_last_digit fixed_column_last_no_digit
  by (auto simp: distinct_fixed_columns distinct_all_category_columns)

lemma fixed_columns_comma_free: "\<forall>x\<in>set fixed_columns. CHR '','' \<notin> set x"
  by (simp add: fixed_columns_def)

lemma fixed_columns_no_comma: "x \<in> set fixed_columns \<Longrightarrow> CHR '','' \<notin> set x"
  using fixed_columns_comma_free by blast

lemma category_columns_no_comma: "x \<in> set (category_columns c) \<Longrightarrow> CHR '','' \<notin> set x"
  unfolding category_columns_def category_prefixes_def
  by (auto simp: py_str_int_no_char)

lemma header_columns_no_comma: "\<forall>x\<in>set (header_columns C). CHR '','' \<notin> set x"
  unfolding header_columns_def
  using fixed_columns_no_comma category_columns_no_comma by auto

lemma header_columns_nonempty: "header_columns C \<noteq> []"
  by (simp add: header_columns_def fixed_columns_def)

lemma split_header: "split_on CHR '','' (create_header_row C '','') = header_columns C"
  unfolding create_header_row_def
  by (rule split_on_join [OF header_columns_nonempty header_columns_no_comma])

lemma create_header_row_nonempty: "create_header_row C sep \<noteq> []"
  by (simp add: create_header_row_def header_columns_def fixed_columns_def)

subsection \<open>\<open>get_classes\<close> on a header of \<open>create_header_row\<close>\<close>

lemma fixed_columns_not_selected:
  "filter (contains ''NumInstances_'') fixed_columns = []"
  by (simp add: fixed_columns_def)

lemma no_capital_N:
  "CHR ''N'' \<notin> set p \<Longrightarrow> \<not> contains ''NumInstances_'' (p @ py_str_int c)"
  by (auto dest!: contains_hd_mem simp: py_str_int_no_char)

lemma NumInstances_selected: "contains ''NumInstances_'' (''NumInstances_'' @ py_str_int c)"
  by (rule contains_prefix) simp

lemma category_columns_selected:
  "filter (contains ''NumInstances_'') (category_columns c) = [NumInstances_col c]"
  unfolding category_columns_def category_prefixes_def NumInstances_col_def
  by (simp add: NumInstances_selected no_capital_N del: append.simps contains.simps)

lemma header_columns_selected:
  "filter (contains ''NumInstances_'') (header_columns C) = map NumInstances_col C"
proof -
  have "filter (contains ''NumInstances_'') (concat (map category_columns C)) = map NumInstances_col C"
    by (induction C) (simp_all add: category_columns_selected)
  then show ?thesis
    by (simp add: header_columns_def fixed_columns_not_selected)
qed

lemma class_of_NumInstances_col: "class_of_column (NumInstances_col c) = Inr c"
proof -
  have "CHR ''_'' \<notin> set (py_str_int c)"
    by (simp add: py_str_int_no_char)
  then have "split_on CHR ''_'' (''NumInstances'' @ CHR ''_'' # py_str_int c)
             = [''NumInstances'', py_str_int c]"
    by (simp add: split_on_append split_on_no_sep del: append.simps)
  then show ?thesis
    by (simp add: class_of_column_def NumInstances_col_def py_int_py_str_int)
qed

lemma get_classes_header:
  assumes "columns df = header_columns C"
  shows "get_classes df = Inr (set C)"
proof -
  have "sequence (map class_of_column (map NumInstances_col C)) = Inr (map (\<lambda>c. c) C)"
    unfolding map_map by (rule sequence_Inr) (simp add: class_of_NumInstances_col)
  then show ?thesis
    by (simp add: get_classes_def assms header_columns_selected bind_def)
qed

subsection \<open>The tokenizer on plain lines\<close>

lemma plain_char_simps:
  assumes "plain_char c"
  shows "c \<noteq> newline" and "c \<noteq> carriage" and "c \<noteq> quote"
  using assms by (auto simp: plain_char_def newline_def carriage_def)

lemma is_blank_not_comma: "is_blank c \<Longrightarrow> c \<noteq> CHR '',''"
  by (auto simp: is_blank_def tab_def)

lemma split_on_Cons_other:
  "x \<noteq> c \<Longrightarrow> split_on c (x # xs) = (x # hd (split_on c xs)) # tl (split_on c xs)"
  using split_on_nonempty [of c xs] by (cases "split_on c xs") auto

lemma split_on_prefix:
  "c \<notin> set a \<Longrightarrow> split_on c (a @ b) = (a @ hd (split_on c b)) # tl (split_on c b)"
proof (induction a)
  case Nil
  show ?case using split_on_nonempty [of c b] by (cases "split_on c b") auto
next
  case (Cons x a)
  then have "x \<noteq> c" and "split_on c (a @ b) = (a @ hd (split_on c b)) # tl (split_on c b)"
    by auto
  then show ?case
    by (simp add: split_on_Cons_other [of x c] del: split_on.simps)
qed

lemma tok_fields_line:
  assumes "list_all plain_char w" and "st = IN_FIELD \<or> (st = START_FIELD \<and> fld = [])"
  shows "foldl tok_step \<lparr>tk_state = st, tk_field = fld, tk_fields = F, tk_records = R,
            tk_pending = []\<rparr> (w @ [newline])
         = \<lparr>tk_state = START_RECORD, tk_field = [], tk_fields = [],
            tk_records = R @ [F @ (fld @ hd (split_on CHR '','' w)) # tl (split_on CHR '','' w)],
            tk_pending = []\<rparr>"
  using assms
proof (induction w arbitrary: st fld F)
  case Nil
  then show ?case
    by (auto simp: tok_step_def in_field_def start_field_def end_line_def end_field_def)
next
  case (Cons x w)
  from Cons.prems(1) have x: "plain_char x" and w: "list_all plain_char w" by simp_all
  note px = plain_char_simps [OF x]
  show ?case
  proof (cases "x = CHR '',''")
    case True
    have "tok_step \<lparr>tk_state = st, tk_field = fld, tk_fields = F, tk_records = R,
            tk_pending = []\<rparr> x
          = \<lparr>tk_state = START_FIELD, tk_field = [], tk_fields = F @ [fld], tk_records = R,
            tk_pending = []\<rparr>"
      using Cons.prems(2) True
      by (auto simp: tok_step_def in_field_def start_field_def end_field_def newline_def
          carriage_def quote_def)
    then show ?thesis
      using Cons.IH [OF w, of START_FIELD "[]" "F @ [fld]"] True split_on_nonempty [of "CHR '',''" w]
      by (cases "split_on CHR '','' w") auto
  next
    case False
    have "tok_step \<lparr>tk_state = st, tk_field = fld, tk_fields = F, tk_records = R,
            tk_pending = []\<rparr> x
          = \<lparr>tk_state = IN_FIELD, tk_field = fld @ [x], tk_fields = F, tk_records = R,
            tk_pending = []\<rparr>"
      using Cons.prems(2) False px
      by (auto simp: tok_step_def in_field_def start_field_def push_char_def)
    then show ?thesis
      using Cons.IH [OF w, of IN_FIELD "fld @ [x]" F] False
      by (simp add: split_on_Cons_other del: split_on.simps)
  qed
qed

lemma tok_blank_prefix:
  assumes "list_all plain_char w" and "list_all is_blank p"
  shows "foldl tok_step \<lparr>tk_state = WHITESPACE_LINE, tk_field = [], tk_fields = [],
            tk_records = R, tk_pending = p\<rparr> (w @ [newline])
         = \<lparr>tk_state = START_RECORD, tk_field = [], tk_fields = [],
            tk_records = (if list_all is_blank w then R else R @ [split_on CHR '','' (p @ w)]),
            tk_pending = []\<rparr>"
  using assms
proof (induction w arbitrary: p)
  case Nil
  then show ?case
    by (simp add: tok_step_def whitespace_line_def)
next
  case (Cons x w)
  from Cons.prems(1) have x: "plain_char x" and w: "list_all plain_char w" by simp_all
  note px = plain_char_simps [OF x]
  from Cons.prems(2) have p: "CHR '','' \<notin> set p"
    by (auto simp: list_all_iff dest: is_blank_not_comma)
  show ?case
  proof (cases "is_blank x")
    case True
    have "tok_step \<lparr>tk_state = WHITESPACE_LINE, tk_field = [], tk_fields = [],
            tk_records = R, tk_pending = p\<rparr> x
          = \<lparr>tk_state = WHITESPACE_LINE, tk_field = [], tk_fields = [],
            tk_records = R, tk_pending = p @ [x]\<rparr>"
      using True px by (simp add: tok_step_def whitespace_line_def)
    then show ?thesis
      using Cons.IH [OF w, of "p @ [x]"] Cons.prems(2) True by simp
  next
    case False
    show ?thesis
    proof (cases "x = CHR '',''")
      case True
      have "tok_step \<lparr>tk_state = WHITESPACE_LINE, tk_field = [], tk_fields = [],
              tk_records = R, tk_pending = p\<rparr> x
            = \<lparr>tk_state = START_FIELD, tk_field = [], tk_fields = [] @ [p], tk_records = R,
              tk_pending = []\<rparr>"
        using True \<open>\<not> is_blank x\<close>
        by (simp add: tok_step_def whitespace_line_def in_field_def end_field_def newline_def
            carriage_def)
      then show ?thesis
        using tok_fields_line [OF w, of START_FIELD "[]" "[] @ [p]" R] True \<open>\<not> is_blank x\<close>
          split_on_nonempty [of "CHR '',''" w] p
        by (cases "split_on CHR '','' w") (auto simp: split_on_append)
    next
      case neq: False
      have "tok_step \<lparr>tk_state = WHITESPACE_LINE, tk_field = [], tk_fields = [],
              tk_records = R, tk_pending = p\<rparr> x
            = \<lparr>tk_state = IN_FIELD, tk_field = p @ [x], tk_fields = [], tk_records = R,
              tk_pending = []\<rparr>"
        using neq False px
        by (simp add: tok_step_def whitespace_line_def in_field_def push_char_def)
      moreover have "split_on CHR '','' ((p @ [x]) @ w)
          = ((p @ [x]) @ hd (split_on CHR '','' w)) # tl (split_on CHR '','' w)"
        using p neq by (intro split_on_prefix) auto
      ultimately show ?thesis
        using tok_fields_line [OF w, of IN_FIELD "p @ [x]" "[]" R] False
        by simp
    qed
  qed
qed

lemma tok_line:
  assumes "list_all plain_char l"
  shows "foldl tok_step \<lparr>tk_state = START_RECORD, tk_field = [], tk_fields = [],
            tk_records = R, tk_pending = []\<rparr> (l @ [newline])
         = \<lparr>tk_state = START_RECORD, tk_field = [], tk_fields = [],
            tk_records = (if list_all is_blank l then R else R @ [split_on CHR '','' l]),
            tk_pending = []\<rparr>"
proof (cases l)
  case Nil
  then show ?thesis
    by (simp add: tok_step_def start_record_def)
next
  case (Cons x w)
  from assms Cons have x: "plain_char x" and w: "list_all plain_char w" by simp_all
  note px = plain_char_simps [OF x]
  show ?thesis
  proof (cases "is_blank x")
    case True
    have "tok_step \<lparr>tk_state = START_RECORD, tk_field = [], tk_fields = [],
            tk_records = R, tk_pending = []\<rparr> x
          = \<lparr>tk_state = WHITESPACE_LINE, tk_field = [], tk_fields = [],
            tk_records = R, tk_pending = [x]\<rparr>"
      using True px by (simp add: tok_step_def start_record_def)
    then show ?thesis
      using tok_blank_prefix [OF w, of "[x]" R] True by (simp add: Cons)
  next
    case False
    show ?thesis
    proof (cases "x = CHR '',''")
      case True
      have "tok_step \<lparr>tk_state = START_RECORD, tk_field = [], tk_fields = [],
              tk_records = R, tk_pending = []\<rparr> x
            = \<lparr>tk_state = START_FIELD, tk_field = [], tk_fields = [] @ [[]], tk_records = R,
              tk_pending = []\<rparr>"
        using True False
        by (simp add: tok_step_def start_record_def start_field_def end_field_def newline_def
            carriage_def quote_def)
      then show ?thesis
        using tok_fields_line [OF w, of START_FIELD "[]" "[] @ [[]]" R] True False
          split_on_nonempty [of "CHR '',''" w]
        by (cases "split_on CHR '','' w") (auto simp: Cons)
    next
      case neq: False
      have "tok_step \<lparr>tk_state = START_RECORD, tk_field = [], tk_fields = [],
              tk_records = R, tk_pending = []\<rparr> x
            = \<lparr>tk_state = IN_FIELD, tk_field = [] @ [x], tk_fields = [], tk_records = R,
              tk_pending = []\<rparr>"
        using neq False px
        by (simp add: tok_step_def start_record_def start_field_def push_char_def)
      then show ?thesis
        using tok_fields_line [OF w, of IN_FIELD "[] @ [x]" "[]" R] False neq
        by (simp add: Cons split_on_Cons_other del: split_on.simps)
    qed
  qed
qed

lemma tok_lines:
  assumes "\<forall>l\<in>set ls. list_all plain_char l"
  shows "foldl tok_step \<lparr>tk_state = START_RECORD, tk_field = [], tk_fields = [],
            tk_records = R, tk_pending = []\<rparr> (concat (map (\<lambda>l. l @ [newline]) ls))
         = \<lparr>tk_state = START_RECORD, tk_field = [], tk_fields = [],
            tk_records = R @ map (split_on CHR '','') (filter (\<lambda>l. \<not> list_all is_blank l) ls),
            tk_pending = []\<rparr>"
  using assms
proof (induction ls arbitrary: R)
  case Nil
  show ?case by simp
next
  case (Cons l ls)
  from Cons.prems have l: "list_all plain_char l" and ls: "\<forall>l\<in>set ls. list_all plain_char l"
    by simp_all
  have "foldl tok_step \<lparr>tk_state = START_RECORD, tk_field = [], tk_fields = [],
            tk_records = R, tk_pending = []\<rparr> (concat (map (\<lambda>l. l @ [newline]) (l # ls)))
        = foldl tok_step (foldl tok_step \<lparr>tk_state = START_RECORD, tk_field = [],
            tk_fields = [], tk_records = R, tk_pending = []\<rparr> (l @ [newline]))
            (concat (map (\<lambda>l. l @ [newline]) ls))"
    by (simp only: list.map concat.simps foldl_append)
  also have "\<dots> = foldl tok_step \<lparr>tk_state = START_RECORD, tk_field = [], tk_fields = [],
            tk_records = (if list_all is_blank l then R else R @ [split_on CHR '','' l]),
            tk_pending = []\<rparr> (concat (map (\<lambda>l. l @ [newline]) ls))"
    by (simp only: tok_line [OF l])
  also have "\<dots> = \<lparr>tk_state = START_RECORD, tk_field = [], tk_fields = [],
            tk_records = (if list_all is_blank l then R else R @ [split_on CHR '','' l])
              @ map (split_on CHR '','') (filter (\<lambda>l. \<not> list_all is_blank l) ls),
            tk_pending = []\<rparr>"
    by (rule Cons.IH [OF ls])
  finally show ?case by simp
qed

lemma tokenize_plain_lines:
  assumes "\<forall>l\<in>set ls. list_all plain_char l"
  shows "tokenize (concat (map (\<lambda>l. l @ [newline]) ls))
         = Inr (map (split_on CHR '','') (filter (\<lambda>l. \<not> list_all is_blank l) ls))"
  unfolding tokenize_def tok_lines [OF assms] by (simp add: tok_eof_def)

subsection \<open>Loading a table under a header of \<open>create_header_row\<close>\<close>

lemma plain_numeral_char: "numeral_char c \<Longrightarrow> plain_char c"
  by (auto simp: numeral_char_def is_digit_def plain_char_def quote_def)

lemma fixed_columns_plain: "\<forall>x\<in>set fixed_columns. list_all plain_char x"
  by (simp add: fixed_columns_def plain_char_def quote_def)

lemma category_columns_plain: "\<forall>x\<in>set (category_columns c). list_all plain_char x"
proof -
  have "list_all plain_char (py_str_int c)"
    using py_str_int_chars plain_numeral_char by (auto simp: list_all_iff)
  moreover have "\<forall>p\<in>set category_prefixes. list_all plain_char p"
    by (simp add: category_prefixes_def plain_char_def quote_def)
  ultimately show ?thesis
    by (auto simp: category_columns_def)
qed

lemma header_columns_plain: "\<forall>x\<in>set (header_columns C). list_all plain_char x"
  using fixed_columns_plain category_columns_plain
  by (auto simp: header_columns_def)

lemma join_plain:
  "\<forall>x\<in>set cols. list_all plain_char x \<Longrightarrow> list_all plain_char (join '','' cols)"
  by (induction "'',''" cols rule: join.induct) (simp_all add: plain_char_def quote_def)

lemma create_header_row_plain: "list_all plain_char (create_header_row C '','')"
  unfolding create_header_row_def by (rule join_plain) (rule header_columns_plain)

lemma create_header_row_not_blank: "\<not> list_all is_blank (create_header_row C sep)"
  by (simp add: create_header_row_def header_columns_def fixed_columns_def is_blank_def tab_def)

lemma length_header_columns: "length (header_columns C) = 36 + 10 * length C"
proof -
  have "length (concat (map category_columns C)) = 10 * length C"
    by (induction C) (simp_all add: category_columns_def category_prefixes_def)
  then show ?thesis
    by (simp add: header_columns_def fixed_columns_def)
qed

lemma read_csv_header:
  assumes "distinct C"
    and "\<forall>l\<in>set data_lines. list_all plain_char l
           \<and> length (split_on CHR '','' l) \<le> length (header_columns C)"
  shows "\<exists>df. read_csv (create_header_row C '','' # data_lines) = Inr df
           \<and> columns df = header_columns C"
proof -
  let ?data = "map (split_on CHR '','') (filter (\<lambda>l. \<not> list_all is_blank l) data_lines)"
  let ?h = "length (header_columns C)"
  have "\<forall>l\<in>set (create_header_row C '','' # data_lines). list_all plain_char l"
    using assms(2) create_header_row_plain by simp
  from tokenize_plain_lines [OF this]
  have tok: "tokenize (concat (map (\<lambda>l. l @ [newline]) (create_header_row C '','' # data_lines)))
             = Inr (header_columns C # ?data)"
    by (simp add: create_header_row_not_blank split_header)
  have len: "\<forall>r\<in>set ?data. length r \<le> ?h"
    using assms(2) by auto
  then have n: "(case ?data of [] \<Rightarrow> ?h | r # rs \<Rightarrow> max ?h (length r)) = ?h"
    by (cases ?data) (simp_all add: max_def)
  have "\<not> list_ex (\<lambda>r. ?h < length r) (tl ?data)"
    using len by (cases ?data) (auto simp: list_ex_iff)
  then have "frame_of_records (header_columns C # ?data)
        = Inr \<lparr>columns = dedup_names (header_columns C),
               rows = map (\<lambda>r. map parse_cell (drop (?h - ?h) (pad ?h r))) ?data\<rparr>"
    unfolding frame_of_records_def list.case Let_def n by (simp only: if_False)
  then show ?thesis
    unfolding read_csv_def tok
    by (simp add: dedup_names_distinct [OF distinct_header_columns [OF assms(1)]])
qed

text \<open>
  Claim C9, amended.  For every list \<open>C\<close> of pairwise distinct category ids, loading a
  table whose header row is \<open>create_header_row(C)\<close> (with the comma as separator) and whose
  rows are plain lines of at most as many fields as the header, and calling \<open>get_classes\<close>,
  returns exactly the set of the ids in \<open>C\<close>.
\<close>

theorem classes_of_header_distinct:
  assumes "distinct C"
    and "\<forall>l\<in>set data_lines. list_all plain_char l
           \<and> length (split_on CHR '','' l) \<le> length (header_columns C)"
  shows "classes_of_loaded (create_header_row C '','' # data_lines) = Inr (set C)"
proof -
  from read_csv_header [OF assms] obtain df where
    "read_csv (create_header_row C '','' # data_lines) = Inr df"
    and "columns df = header_columns C" by blast
  then show ?thesis
    by (simp add: classes_of_loaded_def bind_def get_classes_header)
qed

theorem classes_of_header_distinct_witness:
  "classes_of_loaded (create_header_row [1, 3, 5] '','' # [''Has13,7,2'']) = Inr {1, 3, 5}"
proof -
  have "\<forall>l\<in>set [''Has13,7,2'']. list_all plain_char l
           \<and> length (split_on CHR '','' l) \<le> length (header_columns [1, 3, 5])"
    by (simp add: plain_char_def quote_def length_header_columns)
  from classes_of_header_distinct [OF _ this] show ?thesis by simp
qed

text \<open>
  Claim C9 as stated, for every list: it fails when an id is repeated.  \<open>read_csv\<close>
  renames the second column \<open>NumInstances_1\<close> to \<open>NumInstances_1.1\<close>, and \<open>get_classes\<close>
  raises \<open>ValueError\<close> at \<open>int('1.1')\<close>.
\<close>

theorem classes_of_header_repeated_id_counterexample:
  "classes_of_loaded [create_header_row [1, 1] '',''] = Inl ValueError"
  by code_simp

end
